theory Spec2Isabelle
  imports Complex_Main "HOL-Library.AList" "HOL-Library.Sublist"
begin

section \<open>Strings as the source uses them\<close>

text \<open>
  A JavaScript string is modelled as a \<^typ>\<open>string\<close>, one \<^typ>\<open>char\<close> per code unit
  below 256. The white space of \<^verbatim>\<open>String.prototype.trim\<close> and of the regular
  expression class \<^verbatim>\<open>\s\<close> is, in that range, TAB, LF, VT, FF, CR, SPACE and NBSP.
\<close>

definition is_ws :: "char \<Rightarrow> bool" where
  "is_ws c = (c \<in> set [CHR 0x09, CHR 0x0A, CHR 0x0B, CHR 0x0C, CHR 0x0D, CHR 0x20, CHR 0xA0])"

text \<open>\<^verbatim>\<open>s.trim()\<close>\<close>

definition trim :: "string \<Rightarrow> string" where
  "trim s = rev (dropWhile is_ws (rev (dropWhile is_ws s)))"

text \<open>\<^verbatim>\<open>s.startsWith(p)\<close>\<close>

definition startsWith :: "string \<Rightarrow> string \<Rightarrow> bool" where
  "startsWith s p = (take (length p) s = p)"

text \<open>
  \<^verbatim>\<open>s.split(c)\<close> for a separator of one character: the pieces between the
  separators, in order; the result is never empty.
\<close>

fun split :: "char \<Rightarrow> string \<Rightarrow> string list" where
  "split c [] = [[]]"
| "split c (x # xs) =
     (if x = c then [] # split c xs
      else (case split c xs of
              [] \<Rightarrow> [[x]]
            | p # ps \<Rightarrow> (x # p) # ps))"

text \<open>\<^verbatim>\<open>xs.join(sep)\<close> on strings.\<close>

fun join :: "string \<Rightarrow> string list \<Rightarrow> string" where
  "join sep [] = []"
| "join sep [x] = x"
| "join sep (x # y # ys) = x @ sep @ join sep (y # ys)"

section \<open>The SSE line parser (utils/sse\_parser.ts)\<close>

text \<open>
  \<^verbatim>\<open>line.replace(/^data:\s*/g, '')\<close> and \<^verbatim>\<open>line.replace(/^event:\s*/g, '')\<close>, on a
  line that starts with the prefix: the pattern is anchored at the start, so it matches
  once, the prefix of \<open>n\<close> characters and the white space after it.
\<close>

definition strip_prefix :: "nat \<Rightarrow> string \<Rightarrow> string" where
  "strip_prefix n line = dropWhile is_ws (drop n line)"

text \<open>
  \<^verbatim>\<open>SSEParseResult\<close> when it is not null. \<^verbatim>\<open>JSON.parse\<close> belongs to the language,
  not to the repository: it is a parameter \<open>JSON_parse\<close> of the model, with \<open>None\<close> for
  the \<^verbatim>\<open>SyntaxError\<close> it throws, and the parsed value is of any type \<open>'j\<close>.
\<close>

record 'j SSEResult =
  eventName :: "string option"
  sse_data :: 'j

text \<open>
  \<^verbatim>\<open>SSEParser.parseLine\<close>. The state of the parser is the field
  \<^verbatim>\<open>currentEventName\<close>; the function returns the result and the new state.
  \<^verbatim>\<open>this.currentEventName || undefined\<close> drops a name that is the empty string.
\<close>

definition parseLine ::
  "(string \<Rightarrow> 'j option) \<Rightarrow> string \<Rightarrow> string option \<Rightarrow> 'j SSEResult option \<times> string option" where
  "parseLine JSON_parse line currentEventName =
     (if startsWith line ''event:'' then
        (None, Some (trim (strip_prefix 6 line)))
      else if startsWith line ''data:'' then
        (let payload = trim (strip_prefix 5 line) in
         if payload = [] then (None, None)
         else (case JSON_parse payload of
                 Some d \<Rightarrow>
                   (Some \<lparr>eventName = (case currentEventName of
                                          None \<Rightarrow> None
                                        | Some n \<Rightarrow> if n = [] then None else Some n),
                          sse_data = d\<rparr>,
                    None)
               | None \<Rightarrow> (None, None)))
      else if trim line = [] then (None, None)
      else (None, currentEventName))"

text \<open>The legacy \<^verbatim>\<open>parseSSELine\<close>.\<close>

definition parseSSELine :: "(string \<Rightarrow> 'j option) \<Rightarrow> string \<Rightarrow> 'j option" where
  "parseSSELine JSON_parse line =
     (if \<not> startsWith line ''data:'' then None
      else (let payload = trim (strip_prefix 5 line) in
            if payload = [] then None
            else (case JSON_parse payload of Some d \<Rightarrow> Some d | None \<Rightarrow> None)))"

text \<open>Feeding a sequence of lines to one parser, collecting what each call returns.\<close>

fun parseLines ::
  "(string \<Rightarrow> 'j option) \<Rightarrow> string list \<Rightarrow> string option \<Rightarrow> 'j SSEResult option list \<times> string option" where
  "parseLines JSON_parse [] cur = ([], cur)"
| "parseLines JSON_parse (l # ls) cur =
     (let (r, cur') = parseLine JSON_parse l cur;
          (rs, cur'') = parseLines JSON_parse ls cur'
      in (r # rs, cur''))"

section \<open>Block assembly (examples/frontend/useStreamingQuery.ts)\<close>

subsection \<open>Values, block states and content blocks\<close>

text \<open>
  \<^verbatim>\<open>StreamingBlockState.data\<close> starts as \<^verbatim>\<open>{}\<close> and is written by
  \<^verbatim>\<open>applyBlockDelta\<close> only, with a \<^verbatim>\<open>value\<close> that the source types as a string:
  every value stored in it is a string or an array of such values.
\<close>

datatype val = VStr string | VArr "val list"

text \<open>JavaScript truthiness of a property read: \<^verbatim>\<open>undefined\<close> and \<^verbatim>\<open>''\<close> are falsy, an array never is.\<close>

fun truthy :: "val option \<Rightarrow> bool" where
  "truthy None = False"
| "truthy (Some (VStr s)) = (s \<noteq> [])"
| "truthy (Some (VArr xs)) = True"

text \<open>An exception value: \<^verbatim>\<open>err.name\<close> and \<^verbatim>\<open>err.message\<close>.\<close>

datatype exn = Exn (name: string) (message: string)

text \<open>
  The \<^verbatim>\<open>TypeError\<close> of the engine for a call of a method that the receiver does not
  have; its message is the callee as the compiled source writes it, followed by
  \<^verbatim>\<open> is not a function\<close>.
\<close>

definition not_a_function :: "string \<Rightarrow> exn" where
  "not_a_function what = Exn ''TypeError'' (what @ '' is not a function'')"

record StreamingBlockState =
  block_id :: string
  block_type :: string
  data :: "string \<rightharpoonup> val"
  streaming :: bool
  partial :: bool

text \<open>
  \<^verbatim>\<open>ContentBlock\<close>, its fields \<^verbatim>\<open>type\<close> and \<^verbatim>\<open>data\<close> named \<open>ctype\<close> and \<open>cdata\<close>.
  At run time \<^verbatim>\<open>BlockType\<close> is any string: the source casts, it does not check.
\<close>

record ContentBlock =
  ctype :: string
  cdata :: "string \<rightharpoonup> val"

text \<open>The cells of a row or of the headers: \<^verbatim>\<open>value.split('|').map(s => s.trim())\<close>.\<close>

definition cells :: "string \<Rightarrow> val" where
  "cells v = VArr (map (\<lambda>s. VStr (trim s)) (split (CHR ''|'') v))"

text \<open>
  \<^verbatim>\<open>applyBlockDelta\<close>. The source mutates \<^verbatim>\<open>state.data\<close>; the model returns the new
  state, or the exception. In the first branch \<^verbatim>\<open>arr.push\<close> throws when the property
  holds a non-empty string. In the last branch the property name \<^verbatim>\<open>__proto__\<close> is the
  accessor inherited from \<^verbatim>\<open>Object.prototype\<close>: reading it gives the prototype object,
  which is not a string, and assigning a string to it changes nothing.
\<close>

definition applyBlockDelta :: "StreamingBlockState \<Rightarrow> string \<Rightarrow> string \<Rightarrow> exn + StreamingBlockState" where
  "applyBlockDelta state path v =
     (let d = data state in
      if path = ''rows'' \<or> path = ''items'' \<or> path = ''steps'' then
        (let d1 = (if \<not> truthy (d path) then d(path \<mapsto> VArr []) else d) in
         case d1 path of
           Some (VArr arr) \<Rightarrow>
             Inr (state\<lparr>data := d1(path \<mapsto> VArr (arr @ [if path = ''rows'' then cells v else VStr v]))\<rparr>)
         | _ \<Rightarrow> Inl (not_a_function ''arr.push''))
      else if path = ''headers'' then
        Inr (state\<lparr>data := d(path \<mapsto> cells v)\<rparr>)
      else if path = ''__proto__'' then
        Inr state
      else
        (case d path of
           Some (VStr existing) \<Rightarrow> Inr (state\<lparr>data := d(path \<mapsto> VStr (existing @ v))\<rparr>)
         | _ \<Rightarrow> Inr (state\<lparr>data := d(path \<mapsto> VStr v)\<rparr>)))"

text \<open>\<^verbatim>\<open>stateToContentBlock\<close>: \<^verbatim>\<open>{ id: state.block_id, ...state.data }\<close>; a key \<^verbatim>\<open>id\<close> of the data wins.\<close>

definition stateToContentBlock :: "StreamingBlockState \<Rightarrow> ContentBlock" where
  "stateToContentBlock state =
     \<lparr>ctype = block_type state, cdata = [''id'' \<mapsto> VStr (block_id state)] ++ data state\<rparr>"

text \<open>
  \<^verbatim>\<open>buildBlocksFromState\<close>. The \<^verbatim>\<open>Map\<close> of open blocks is an association list in
  insertion order: \<^verbatim>\<open>set\<close> is \<^const>\<open>AList.update\<close>, \<^verbatim>\<open>get\<close> is \<^const>\<open>map_of\<close>,
  \<^verbatim>\<open>delete\<close> is \<^const>\<open>AList.delete\<close>, \<^verbatim>\<open>values()\<close> is \<^term>\<open>map snd\<close>.
\<close>

definition buildBlocksFromState ::
  "ContentBlock list \<Rightarrow> (string \<times> StreamingBlockState) list \<Rightarrow> ContentBlock list" where
  "buildBlocksFromState completed streamingMap =
     completed @ map (\<lambda>kv. stateToContentBlock (snd kv)) streamingMap"

subsection \<open>The text fallback\<close>

text \<open>\<^verbatim>\<open>String(v)\<close>: a string is itself, an array is its elements joined by commas.\<close>

fun js_toString :: "val \<Rightarrow> string" where
  "js_toString (VStr s) = s"
| "js_toString (VArr xs) = join '','' (map js_toString xs)"

text \<open>The decimal numeral of \<^verbatim>\<open>i + 1\<close> in the template of the steps.\<close>

function show_nat :: "nat \<Rightarrow> string" where
  "show_nat n = (if n < 10 then [char_of (48 + n)] else show_nat (n div 10) @ [char_of (48 + n mod 10)])"
  by pat_completeness auto
termination
  by (relation "measure id") auto

definition newline :: string where
  "newline = [CHR 0x0A]"

text \<open>\<^verbatim>\<open>x || ''\<close> on a property read.\<close>

definition or_empty :: "val option \<Rightarrow> val" where
  "or_empty x = (case x of Some v \<Rightarrow> if truthy x then v else VStr [] | None \<Rightarrow> VStr [])"

text \<open>
  \<^verbatim>\<open>(x || [])\<close> as the receiver of \<^verbatim>\<open>join\<close> or \<^verbatim>\<open>map\<close>: the elements of the
  array, or the exception when the property holds a non-empty string.
\<close>

definition or_array :: "string \<Rightarrow> val option \<Rightarrow> exn + val list" where
  "or_array what x =
     (case x of
        Some (VArr xs) \<Rightarrow> Inr xs
      | Some (VStr s) \<Rightarrow> if s = [] then Inr [] else Inl (not_a_function what)
      | None \<Rightarrow> Inr [])"

text \<open>The callback of \<^verbatim>\<open>blocks.map\<close> in \<^verbatim>\<open>blocksToTextFallback\<close>: the \<^verbatim>\<open>switch\<close> on the type.\<close>

definition block_text :: "ContentBlock \<Rightarrow> exn + val" where
  "block_text block =
     (let d = cdata block; t = ctype block in
      if t = ''text'' \<or> t = ''markdown'' then Inr (or_empty (d ''content''))
      else if t = ''list'' then
        (case or_array ''(data.items || []).join'' (d ''items'') of
           Inl e \<Rightarrow> Inl e
         | Inr xs \<Rightarrow> Inr (VStr (join newline (map js_toString xs))))
      else if t = ''steps'' then
        (case or_array ''(data.steps || []).map'' (d ''steps'') of
           Inl e \<Rightarrow> Inl e
         | Inr xs \<Rightarrow>
             Inr (VStr (join newline
                    (map (\<lambda>(i, s). show_nat (i + 1) @ ''. '' @ js_toString s) (enumerate 0 xs)))))
      else if t = ''table'' then
        (case or_array ''(data.headers || []).join'' (d ''headers'') of
           Inl e \<Rightarrow> Inl e
         | Inr xs \<Rightarrow> Inr (VStr (''[Table: '' @ join '', '' (map js_toString xs) @ '']'')))
      else if t = ''code'' then
        Inr (VStr (''```'' @ js_toString (or_empty (d ''language'')) @ newline
                   @ js_toString (or_empty (d ''code'')) @ ''```''))
      else Inr (VStr []))"

text \<open>\<^verbatim>\<open>blocks.map(...)\<close>: the first exception of a callback ends the whole call.\<close>

fun map_blocks :: "ContentBlock list \<Rightarrow> exn + val list" where
  "map_blocks [] = Inr []"
| "map_blocks (b # bs) =
     (case block_text b of
        Inl e \<Rightarrow> Inl e
      | Inr v \<Rightarrow> (case map_blocks bs of Inl e \<Rightarrow> Inl e | Inr vs \<Rightarrow> Inr (v # vs)))"

text \<open>\<^verbatim>\<open>blocksToTextFallback\<close>: \<^verbatim>\<open>.filter(Boolean).join('\n\n')\<close> after the map.\<close>

definition blocksToTextFallback :: "ContentBlock list \<Rightarrow> exn + string" where
  "blocksToTextFallback blocks =
     (case map_blocks blocks of
        Inl e \<Rightarrow> Inl e
      | Inr vs \<Rightarrow> Inr (join (newline @ newline) (map js_toString (filter (\<lambda>v. truthy (Some v)) vs))))"

subsection \<open>Events, snapshots and the state of one stream\<close>

text \<open>
  The model of \<^verbatim>\<open>streamQuery\<close> starts where the response has been received and its
  reader obtained, and covers the loop over the chunks, the code after it and the
  \<^verbatim>\<open>catch\<close> and \<^verbatim>\<open>finally\<close> blocks. The request itself and the checks of the
  response before the loop are not part of it.
\<close>

text \<open>A JSON value that the hook passes on without looking inside; numbers are reals.\<close>

datatype json = JNull | JBool bool | JNum real | JStr string | JArr "json list" | JObj "(string \<times> json) list"

text \<open>
  An element \<^verbatim>\<open>cit\<close> of the array of a \<^verbatim>\<open>citations\<close> event, and the \<^verbatim>\<open>Citation\<close>
  made from it. A field is \<open>None\<close> when the property is absent.
\<close>

record RawCitation =
  raw_citation_number :: "real option"
  raw_content :: "string option"
  raw_score :: "real option"
  raw_document :: "json option"
  raw_document_id :: "string option"
  raw_chunk_id :: "string option"
  raw_metadata :: "json option"

record Citation =
  citation_number :: real
  content :: string
  score :: "real option"
  document :: json
  document_id :: "string option"
  chunk_id :: "string option"
  metadata :: json

text \<open>\<^verbatim>\<open>x || {}\<close> on a JSON value.\<close>

definition or_object :: "json option \<Rightarrow> json" where
  "or_object x =
     (case x of
        None \<Rightarrow> JObj []
      | Some j \<Rightarrow> if j = JNull \<or> j = JBool False \<or> j = JNum 0 \<or> j = JStr [] then JObj [] else j)"

text \<open>\<^verbatim>\<open>x || dflt\<close> on a string that may be absent.\<close>

definition or_string :: "string option \<Rightarrow> string \<Rightarrow> string" where
  "or_string x dflt = (case x of Some t \<Rightarrow> if t = [] then dflt else t | None \<Rightarrow> dflt)"

text \<open>The callback of \<^verbatim>\<open>data.data.map\<close> in the \<^verbatim>\<open>citations\<close> branch.\<close>

definition to_citation :: "nat \<times> RawCitation \<Rightarrow> Citation" where
  "to_citation p =
     (case p of (idx, cit) \<Rightarrow>
        \<lparr>citation_number = (case raw_citation_number cit of Some n \<Rightarrow> n | None \<Rightarrow> real idx + 1),
         content = or_string (raw_content cit) [],
         score = raw_score cit,
         document = or_object (raw_document cit),
         document_id = raw_document_id cit,
         chunk_id = raw_chunk_id cit,
         metadata = or_object (raw_metadata cit)\<rparr>)"

text \<open>
  The parsed \<^verbatim>\<open>data\<close> of a line, by its \<^verbatim>\<open>type\<close>, with the fields the branch reads,
  typed as the source casts or tests them. \<open>None\<close> is a field that is absent or fails
  the branch's \<^verbatim>\<open>typeof\<close> or \<^verbatim>\<open>Array.isArray\<close> test. \<open>Other\<close> is any value whose
  \<^verbatim>\<open>type\<close> no branch names.
\<close>

datatype event =
    Conversation_id "string option"
  | User_message_id "string option"
  | Start
  | Progress "string option"
  | Block_start string "string option"
  | Block_delta string string string
  | Block_end string "bool option"
  | Response "string option"
  | Citations "RawCitation list option"
  | Confidence_update "real option"
  | Done "string option" "real option"
  | Error "string option" "string option" "string option"
  | Other

text \<open>
  The argument of \<^verbatim>\<open>onMessageUpdate\<close>, a \<^verbatim>\<open>Partial<Message>\<close>: \<open>None\<close> is a key
  that the object does not have. \<open>u_blocks = Some None\<close> is the key \<^verbatim>\<open>blocks\<close> with the
  value \<^verbatim>\<open>undefined\<close>.
\<close>

record MessageUpdate =
  u_content :: "string option"
  u_blocks :: "ContentBlock list option option"
  u_citations :: "Citation list option"
  u_streaming :: "bool option"
  u_confidence :: "real option"

definition no_update :: MessageUpdate where
  "no_update = \<lparr>u_content = None, u_blocks = None, u_citations = None, u_streaming = None, u_confidence = None\<rparr>"

text \<open>
  What the hook does to its collaborators, in order: the callbacks of its options (an
  optional callback is taken as given), \<^verbatim>\<open>setConfidence\<close>, and \<^verbatim>\<open>reader.cancel()\<close>.
\<close>

datatype call =
    onMessageUpdate MessageUpdate
  | onError string
  | onConversationIdChange string
  | onUserMessageId string
  | onAssistantMessageId string
  | setConfidence real
  | reader_cancel

text \<open>
  The variables of \<^verbatim>\<open>streamQuery\<close> and the refs of the hook while one stream is read.
  \<open>rafId\<close> and \<open>timeoutRef\<close> hold a handle or \<^verbatim>\<open>null\<close>; the handle of the timer is
  modelled by its delay. \<open>streamReaderRef\<close> tells whether the ref holds the reader, which
  it does from the first \<^verbatim>\<open>reader.read()\<close> until the \<^verbatim>\<open>finally\<close> block. \<open>calls\<close>
  is the log of the calls made so far.
\<close>

record StreamState =
  buffer :: string
  fullResponse :: string
  citations :: "Citation list"
  receivedDoneEvent :: bool
  streamingBlocks :: "(string \<times> StreamingBlockState) list"
  completedBlocks :: "ContentBlock list"
  pendingUpdate :: bool
  rafId :: "unit option"
  stopStreamingRef :: bool
  timeoutRef :: "nat option"
  streamReaderRef :: bool
  calls :: "call list"

definition STREAM_TIMEOUT :: nat where
  "STREAM_TIMEOUT = 60000"

text \<open>The state when the loop first awaits \<^verbatim>\<open>reader.read()\<close>: the timer has just been set.\<close>

definition initial :: StreamState where
  "initial =
     \<lparr>buffer = [], fullResponse = [], citations = [], receivedDoneEvent = False,
      streamingBlocks = [], completedBlocks = [], pendingUpdate = False, rafId = None,
      stopStreamingRef = False, timeoutRef = Some STREAM_TIMEOUT, streamReaderRef = True,
      calls = []\<rparr>"

definition emit :: "call \<Rightarrow> StreamState \<Rightarrow> StreamState" where
  "emit c s = s\<lparr>calls := calls s @ [c]\<rparr>"

subsection \<open>Frame batching\<close>

text \<open>\<^verbatim>\<open>scheduleUpdate\<close>: registers the frame callback unless one is pending.\<close>

definition scheduleUpdate :: "StreamState \<Rightarrow> StreamState" where
  "scheduleUpdate s = (if pendingUpdate s then s else s\<lparr>pendingUpdate := True, rafId := Some ()\<rparr>)"

text \<open>\<^verbatim>\<open>cancelScheduledUpdate\<close>\<close>

definition cancelScheduledUpdate :: "StreamState \<Rightarrow> StreamState" where
  "cancelScheduledUpdate s = s\<lparr>rafId := None, pendingUpdate := False\<rparr>"

text \<open>
  The callback given to \<^verbatim>\<open>requestAnimationFrame\<close>. An exception of
  \<^verbatim>\<open>blocksToTextFallback\<close> ends the callback after its first two assignments.
\<close>

definition frame_callback :: "StreamState \<Rightarrow> StreamState" where
  "frame_callback s =
     (let s1 = s\<lparr>pendingUpdate := False, rafId := None\<rparr>;
          currentBlocks = buildBlocksFromState (completedBlocks s1) (streamingBlocks s1)
      in case blocksToTextFallback currentBlocks of
           Inl e \<Rightarrow> s1
         | Inr t \<Rightarrow>
             emit (onMessageUpdate (no_update\<lparr>u_content := Some t, u_blocks := Some (Some currentBlocks),
                                              u_streaming := Some True\<rparr>))
                  (s1\<lparr>fullResponse := t\<rparr>))"

subsection \<open>The branches of the event dispatch\<close>

text \<open>The object that \<^verbatim>\<open>streamingBlocks.set\<close> stores for a block that starts.\<close>

definition new_block :: "string \<Rightarrow> string \<Rightarrow> StreamingBlockState" where
  "new_block blockId blockType =
     \<lparr>block_id = blockId, block_type = blockType, data = Map.empty, streaming = True, partial = False\<rparr>"

text \<open>\<^verbatim>\<open>data.type === 'block_start'\<close>\<close>

definition on_block_start :: "string \<Rightarrow> string option \<Rightarrow> StreamState \<Rightarrow> StreamState" where
  "on_block_start blockId bt s =
     (let blockType = or_string bt ''text'' in
      scheduleUpdate (s\<lparr>streamingBlocks := AList.update blockId (new_block blockId blockType) (streamingBlocks s)\<rparr>))"

text \<open>
  \<^verbatim>\<open>data.type === 'block_delta'\<close>. An exception of \<^verbatim>\<open>applyBlockDelta\<close> is caught by the
  \<^verbatim>\<open>catch\<close> around the dispatch: the block created just before stays, no update is
  scheduled.
\<close>

definition on_block_delta :: "string \<Rightarrow> string \<Rightarrow> string \<Rightarrow> StreamState \<Rightarrow> StreamState" where
  "on_block_delta blockId path v s =
     (let s1 = (if map_of (streamingBlocks s) blockId = None
                then s\<lparr>streamingBlocks := AList.update blockId (new_block blockId ''text'') (streamingBlocks s)\<rparr>
                else s)
      in case map_of (streamingBlocks s1) blockId of
           None \<Rightarrow> s1
         | Some blockState \<Rightarrow>
             (case applyBlockDelta blockState path v of
                Inl e \<Rightarrow> s1
              | Inr blockState' \<Rightarrow>
                  scheduleUpdate (s1\<lparr>streamingBlocks := AList.update blockId blockState' (streamingBlocks s1)\<rparr>)))"

text \<open>\<^verbatim>\<open>data.type === 'block_end'\<close>; \<^verbatim>\<open>data.partial as boolean || false\<close>.\<close>

definition on_block_end :: "string \<Rightarrow> bool option \<Rightarrow> StreamState \<Rightarrow> StreamState" where
  "on_block_end blockId p s =
     (case map_of (streamingBlocks s) blockId of
        None \<Rightarrow> s
      | Some blockState \<Rightarrow>
          (let blockState' = blockState\<lparr>streaming := False, partial := (case p of Some b \<Rightarrow> b | None \<Rightarrow> False)\<rparr>;
               completedBlock = stateToContentBlock blockState'
           in scheduleUpdate (s\<lparr>completedBlocks := completedBlocks s @ [completedBlock],
                                streamingBlocks := AList.delete blockId (streamingBlocks s)\<rparr>)))"

text \<open>
  \<^verbatim>\<open>data.type === 'done'\<close>; \<open>conf\<close> is the \<^verbatim>\<open>confidence\<close> that the callback closed
  over. An exception of \<^verbatim>\<open>blocksToTextFallback\<close> is caught by the \<^verbatim>\<open>catch\<close> around the
  dispatch, after the first assignments.
\<close>

definition on_done :: "real \<Rightarrow> string option \<Rightarrow> real option \<Rightarrow> StreamState \<Rightarrow> StreamState" where
  "on_done conf assistant_message_id confidence_score s =
     (let s1 = cancelScheduledUpdate (s\<lparr>receivedDoneEvent := True\<rparr>);
          s2 = s1\<lparr>timeoutRef := None\<rparr>;
          finalBlocks = buildBlocksFromState (completedBlocks s2) (streamingBlocks s2)
      in case blocksToTextFallback finalBlocks of
           Inl e \<Rightarrow> s2
         | Inr t \<Rightarrow>
             (let finalContent = (if t \<noteq> [] then t
                                  else if fullResponse s2 \<noteq> [] then fullResponse s2
                                  else ''No response received.'');
                  s3 = (case assistant_message_id of
                          Some m \<Rightarrow> if m \<noteq> [] then emit (onAssistantMessageId m) s2 else s2
                        | None \<Rightarrow> s2);
                  finalConfidence = (case confidence_score of Some c \<Rightarrow> c | None \<Rightarrow> conf);
                  s4 = emit (setConfidence finalConfidence) s3;
                  s5 = emit (onMessageUpdate
                               \<lparr>u_content = Some finalContent,
                                u_blocks = Some (if finalBlocks \<noteq> [] then Some finalBlocks else None),
                                u_citations = Some (citations s4),
                                u_streaming = Some False,
                                u_confidence = Some finalConfidence\<rparr>) s4
              in s5\<lparr>stopStreamingRef := True\<rparr>))"

text \<open>
  \<^verbatim>\<open>data.type === 'error'\<close>. The \<^verbatim>\<open>break\<close> that ends the branch leaves the loop over
  the lines; the head of that loop would leave it as well, the flag being set.
\<close>

definition error_message :: "string option \<Rightarrow> string option \<Rightarrow> string option \<Rightarrow> string" where
  "error_message e d m = or_string e (or_string d (or_string m ''Stream error occurred''))"

definition on_error :: "string option \<Rightarrow> string option \<Rightarrow> string option \<Rightarrow> StreamState \<Rightarrow> StreamState" where
  "on_error e d m s =
     (let s1 = cancelScheduledUpdate s;
          errorMessage = error_message e d m;
          s2 = emit (onMessageUpdate
                       (no_update\<lparr>u_content := Some (if fullResponse s1 \<noteq> [] then fullResponse s1 else errorMessage),
                                  u_streaming := Some False\<rparr>)) s1;
          s3 = emit (onError errorMessage) s2
      in s3\<lparr>stopStreamingRef := True\<rparr>)"

text \<open>The chain of \<^verbatim>\<open>if (data.type === ...)\<close> inside the \<^verbatim>\<open>try\<close>.\<close>

definition handle_event :: "real \<Rightarrow> event \<Rightarrow> StreamState \<Rightarrow> StreamState" where
  "handle_event conf ev s =
     (case ev of
        Conversation_id c \<Rightarrow> (if or_string c [] \<noteq> [] then emit (onConversationIdChange (or_string c [])) s else s)
      | User_message_id m \<Rightarrow> (if or_string m [] \<noteq> [] then emit (onUserMessageId (or_string m [])) s else s)
      | Start \<Rightarrow>
          emit (onMessageUpdate (no_update\<lparr>u_content := Some ''Retrieving relevant documents...'',
                                           u_streaming := Some True\<rparr>)) s
      | Progress m \<Rightarrow>
          (let progressMessage = or_string m ''Processing...'' in
           if fullResponse s = []
           then emit (onMessageUpdate (no_update\<lparr>u_content := Some progressMessage, u_streaming := Some True\<rparr>)) s
           else s)
      | Block_start blockId bt \<Rightarrow> on_block_start blockId bt s
      | Block_delta blockId path v \<Rightarrow> on_block_delta blockId path v s
      | Block_end blockId p \<Rightarrow> on_block_end blockId p s
      | Response d \<Rightarrow>
          (case d of
             Some t \<Rightarrow>
               emit (onMessageUpdate (no_update\<lparr>u_content := Some t, u_streaming := Some True\<rparr>))
                    (s\<lparr>fullResponse := t\<rparr>)
           | None \<Rightarrow> s)
      | Citations l \<Rightarrow>
          (case l of
             Some raws \<Rightarrow>
               (let cs = map to_citation (enumerate 0 raws) in
                emit (onMessageUpdate (no_update\<lparr>u_citations := Some cs, u_streaming := Some True\<rparr>))
                     (s\<lparr>citations := cs\<rparr>))
           | None \<Rightarrow> s)
      | Confidence_update c \<Rightarrow> (case c of Some x \<Rightarrow> emit (setConfidence x) s | None \<Rightarrow> s)
      | Done m c \<Rightarrow> on_done conf m c s
      | Error e d m \<Rightarrow> on_error e d m s
      | Other \<Rightarrow> s)"

subsection \<open>Lines, chunks and the end of the stream\<close>

text \<open>
  One pass of the body of \<^verbatim>\<open>for (const line of lines)\<close> after its head. \<open>decode\<close> is
  \<^verbatim>\<open>JSON.parse\<close> followed by the reading of the fields of the branch taken; \<open>None\<close> is
  the exception of \<^verbatim>\<open>JSON.parse\<close>, or of reading \<^verbatim>\<open>type\<close> off \<^verbatim>\<open>null\<close>, which the
  \<^verbatim>\<open>catch\<close> swallows.
\<close>

definition process_line :: "(string \<Rightarrow> event option) \<Rightarrow> real \<Rightarrow> string \<Rightarrow> StreamState \<Rightarrow> StreamState" where
  "process_line decode conf line s =
     (if \<not> startsWith line ''data: '' then s
      else (case decode (drop 6 line) of
              None \<Rightarrow> s
            | Some ev \<Rightarrow> handle_event conf ev s))"

fun process_lines :: "(string \<Rightarrow> event option) \<Rightarrow> real \<Rightarrow> string list \<Rightarrow> StreamState \<Rightarrow> StreamState" where
  "process_lines decode conf [] s = s"
| "process_lines decode conf (line # rest) s =
     (if stopStreamingRef s then s
      else process_lines decode conf rest (process_line decode conf line s))"

text \<open>
  The body of the \<^verbatim>\<open>while\<close> loop once \<^verbatim>\<open>reader.read()\<close> has given a chunk, here the
  text that the decoder makes of it. The \<^verbatim>\<open>value\<close> of a chunk is an object, so it is
  truthy.
\<close>

definition on_chunk :: "(string \<Rightarrow> event option) \<Rightarrow> real \<Rightarrow> string \<Rightarrow> StreamState \<Rightarrow> StreamState" where
  "on_chunk decode conf text s =
     (let s1 = (if timeoutRef s \<noteq> None \<and> fullResponse s = [] then s\<lparr>timeoutRef := None\<rparr> else s);
          lines = split (CHR 0x0A) (buffer s1 @ text);
          s2 = s1\<lparr>buffer := last lines\<rparr>
      in process_lines decode conf (butlast lines) s2)"

text \<open>\<^verbatim>\<open>s.includes(p)\<close>\<close>

fun str_includes :: "string \<Rightarrow> string \<Rightarrow> bool" where
  "str_includes [] p = (p = [])"
| "str_includes (x # xs) p = (startsWith (x # xs) p \<or> str_includes xs p)"

text \<open>The \<^verbatim>\<open>errorMessage\<close> that the \<^verbatim>\<open>catch (err)\<close> block of \<^verbatim>\<open>streamQuery\<close> computes.\<close>

definition catch_message :: "exn \<Rightarrow> string" where
  "catch_message err =
     (if name err = ''TypeError''
         \<and> (str_includes (message err) ''Failed to fetch'' \<or> str_includes (message err) ''ERR_NETWORK'')
      then ''Cannot connect to API server. Please check your network connection.''
      else if name err = ''AbortError'' then ''Request was cancelled. Please try again.''
      else if message err \<noteq> [] then message err
      else ''An error occurred while processing your query'')"

text \<open>The \<^verbatim>\<open>catch (err)\<close> block.\<close>

definition catch_block :: "exn \<Rightarrow> StreamState \<Rightarrow> StreamState" where
  "catch_block err s =
     (let s1 = s\<lparr>timeoutRef := None\<rparr>;
          errorMessage = catch_message err;
          s2 = emit (onError errorMessage) s1
      in emit (onMessageUpdate (no_update\<lparr>u_content := Some errorMessage, u_streaming := Some False\<rparr>)) s2)"

text \<open>The \<^verbatim>\<open>finally\<close> block.\<close>

definition finally_block :: "StreamState \<Rightarrow> StreamState" where
  "finally_block s = s\<lparr>streamReaderRef := False, stopStreamingRef := False, timeoutRef := None\<rparr>"

text \<open>
  From the end of the \<^verbatim>\<open>while\<close> loop to the end of the \<^verbatim>\<open>try\<close> block; an exception
  of \<^verbatim>\<open>blocksToTextFallback\<close> goes to the \<^verbatim>\<open>catch\<close> block.
\<close>

definition after_loop :: "StreamState \<Rightarrow> StreamState" where
  "after_loop s =
     (let s1 = cancelScheduledUpdate s in
      if \<not> receivedDoneEvent s1 then
        (let finalBlocks = buildBlocksFromState (completedBlocks s1) (streamingBlocks s1) in
         if fullResponse s1 \<noteq> [] \<or> citations s1 \<noteq> [] \<or> finalBlocks \<noteq> [] then
           (case blocksToTextFallback finalBlocks of
              Inl e \<Rightarrow> catch_block e s1
            | Inr t \<Rightarrow>
                (let finalContent = (if t \<noteq> [] then t
                                     else if fullResponse s1 \<noteq> [] then fullResponse s1
                                     else ''Response stream ended unexpectedly.'')
                 in (emit (onMessageUpdate
                             \<lparr>u_content = Some finalContent,
                              u_blocks = Some (if finalBlocks \<noteq> [] then Some finalBlocks else None),
                              u_citations = Some (citations s1),
                              u_streaming = Some False,
                              u_confidence = None\<rparr>) s1)\<lparr>timeoutRef := None\<rparr>))
         else if \<not> stopStreamingRef s1 then
           (let s2 = emit (onMessageUpdate
                             (no_update\<lparr>u_content := Some ''No response received from the server. The stream ended without data.'',
                                        u_streaming := Some False\<rparr>)) s1
            in (emit (onError ''No response received from the server. The stream ended without data.'') s2)
                 \<lparr>timeoutRef := None\<rparr>)
         else s1\<lparr>timeoutRef := None\<rparr>)
      else s1\<lparr>timeoutRef := None\<rparr>)"

subsection \<open>What can happen while the loop awaits a read\<close>

text \<open>
  The loop of \<^verbatim>\<open>streamQuery\<close> suspends at \<^verbatim>\<open>await reader.read()\<close> only; between
  two reads the code runs to completion. While it is suspended, the read can give a
  chunk, end, or fail, the frame callback or the timer callback can run, and the caller
  can call \<^verbatim>\<open>stopStreaming\<close>.
\<close>

datatype input = Chunk string | EndOfStream | ReadFails exn | Frame | Timeout | Stop

text \<open>The callback given to \<^verbatim>\<open>setTimeout\<close>.\<close>

definition timeoutMsg :: string where
  "timeoutMsg = ''The server did not respond in time. Please try again.''"

definition timeout_callback :: "StreamState \<Rightarrow> StreamState" where
  "timeout_callback s =
     (if \<not> stopStreamingRef s then
        (let s1 = emit reader_cancel s;
             s2 = emit (onMessageUpdate (no_update\<lparr>u_content := Some timeoutMsg, u_streaming := Some False\<rparr>)) s1;
             s3 = emit (onError timeoutMsg) s2
         in s3\<lparr>stopStreamingRef := True\<rparr>)
      else s)"

text \<open>
  One step of the stream. A cancelled read resolves as ended, so a timer callback that
  cancels and a \<^verbatim>\<open>stopStreaming\<close> are followed at once by the code after the loop. A
  frame callback runs only while registered, a timer callback only while the timer is
  set; a read resolves only while the loop awaits it. After a chunk the head of the loop
  tests the stop flag, cancels and leaves.
\<close>

definition step :: "(string \<Rightarrow> event option) \<Rightarrow> real \<Rightarrow> input \<Rightarrow> StreamState \<Rightarrow> StreamState" where
  "step decode conf i s =
     (case i of
        Chunk text \<Rightarrow>
          (if \<not> streamReaderRef s then s
           else (let s1 = on_chunk decode conf text s in
                 if stopStreamingRef s1 then finally_block (after_loop (emit reader_cancel s1)) else s1))
      | EndOfStream \<Rightarrow> (if \<not> streamReaderRef s then s else finally_block (after_loop s))
      | ReadFails err \<Rightarrow> (if \<not> streamReaderRef s then s else finally_block (catch_block err s))
      | Frame \<Rightarrow> (if rafId s = None then s else frame_callback s)
      | Timeout \<Rightarrow>
          (if timeoutRef s = None then s
           else (let s1 = timeout_callback s in
                 if streamReaderRef s \<and> \<not> stopStreamingRef s then finally_block (after_loop s1) else s1))
      | Stop \<Rightarrow>
          (if streamReaderRef s
           then finally_block (after_loop (emit reader_cancel (s\<lparr>stopStreamingRef := True\<rparr>)))
           else s\<lparr>timeoutRef := None\<rparr>))"

fun run :: "(string \<Rightarrow> event option) \<Rightarrow> real \<Rightarrow> input list \<Rightarrow> StreamState \<Rightarrow> StreamState" where
  "run decode conf [] s = s"
| "run decode conf (i # rest) s = run decode conf rest (step decode conf i s)"

text \<open>The events of a list handled in order, as the dispatch does line after line.\<close>

fun handle_events :: "real \<Rightarrow> event list \<Rightarrow> StreamState \<Rightarrow> StreamState" where
  "handle_events conf [] s = s"
| "handle_events conf (ev # rest) s = handle_events conf rest (handle_event conf ev s)"

subsection \<open>Sample lines\<close>

text \<open>
  A decoder for the lines used in the examples below: each text is given with the event
  that \<^verbatim>\<open>JSON.parse\<close> and the reading of its fields make of it; any other text stands
  for a payload that is not JSON.
\<close>

definition sample_decode :: "string \<Rightarrow> event option" where
  \<open>sample_decode l =
     (if l = ''{"type":"block_start","block_id":"b1","block_type":"text"}'' then Some (Block_start ''b1'' (Some ''text''))
      else if l = ''{"type":"block_delta","block_id":"b1","path":"content","value":"Hi "}'' then Some (Block_delta ''b1'' ''content'' ''Hi '')
      else if l = ''{"type":"block_delta","block_id":"b1","path":"content","value":"there"}'' then Some (Block_delta ''b1'' ''content'' ''there'')
      else if l = ''{"type":"block_end","block_id":"b1","partial":false}'' then Some (Block_end ''b1'' (Some False))
      else if l = ''{"type":"response","data":"Hello"}'' then Some (Response (Some ''Hello''))
      else if l = ''{"type":"error","error":"upstream failed"}'' then Some (Error (Some ''upstream failed'') None None)
      else if l = ''{"type":"done"}'' then Some (Done None None)
      else None)\<close>

text \<open>
  A stand-in for \<^verbatim>\<open>JSON.parse\<close> on the payloads used in the examples of the line
  parser; any other text stands for a payload that is not JSON.
\<close>

definition sample_parse :: "string \<Rightarrow> json option" where
  \<open>sample_parse p =
     (if p = ''{"type":"done"}'' then Some (JObj [(''type'', JStr ''done'')])
      else if p = ''42'' then Some (JNum 42)
      else None)\<close>

text \<open>The chunk that carries the four lines of a text block.\<close>

definition chunk_text_block :: string where
  \<open>chunk_text_block =
     ''data: {"type":"block_start","block_id":"b1","block_type":"text"}'' @ newline
     @ ''data: {"type":"block_delta","block_id":"b1","path":"content","value":"Hi "}'' @ newline
     @ ''data: {"type":"block_delta","block_id":"b1","path":"content","value":"there"}'' @ newline
     @ ''data: {"type":"block_end","block_id":"b1","partial":false}'' @ newline\<close>

text \<open>Chunks that carry one sample line each.\<close>

definition chunk_block_start :: string where
  \<open>chunk_block_start = ''data: {"type":"block_start","block_id":"b1","block_type":"text"}'' @ newline\<close>

definition chunk_response :: string where
  \<open>chunk_response = ''data: {"type":"response","data":"Hello"}'' @ newline\<close>

definition chunk_error :: string where
  \<open>chunk_error = ''data: {"type":"error","error":"upstream failed"}'' @ newline\<close>

definition chunk_done :: string where
  \<open>chunk_done = ''data: {"type":"done"}'' @ newline\<close>

definition chunk_delta :: string where
  \<open>chunk_delta = ''data: {"type":"block_delta","block_id":"b1","path":"content","value":"Hi "}'' @ newline\<close>

text \<open>
  The block that the four lines of \<open>chunk_text_block\<close> complete, and the block that a
  later \<^verbatim>\<open>block_delta\<close> with the same id and the value \<^verbatim>\<open>Hi \<close> opens: its state,
  and its content block.
\<close>

definition hi_there :: ContentBlock where
  "hi_there = \<lparr>ctype = ''text'', cdata = [''id'' \<mapsto> VStr ''b1'', ''content'' \<mapsto> VStr ''Hi there'']\<rparr>"

definition hi_open :: StreamingBlockState where
  "hi_open = \<lparr>block_id = ''b1'', block_type = ''text'', data = [''content'' \<mapsto> VStr ''Hi ''],
              streaming = True, partial = False\<rparr>"

definition hi :: ContentBlock where
  "hi = \<lparr>ctype = ''text'', cdata = [''id'' \<mapsto> VStr ''b1'', ''content'' \<mapsto> VStr ''Hi '']\<rparr>"

text \<open>The exception of a \<^verbatim>\<open>reader.read()\<close> that fails when the connection is lost.\<close>

definition network_error :: exn where
  "network_error = Exn ''TypeError'' ''network error''"

subsection \<open>Notions used in the statements\<close>

text \<open>
  The values of the union \<^verbatim>\<open>BlockType\<close> other than \<^verbatim>\<open>unknown\<close>: the known block types.
\<close>

definition known_block_types :: "string list" where
  "known_block_types =
     [''text'', ''table'', ''list'', ''code'', ''markdown'', ''quote'', ''divider'', ''callout'',
      ''key_value'', ''json'', ''metric'', ''steps'', ''media'', ''error'']"

text \<open>
  A path of the last branch of \<^verbatim>\<open>applyBlockDelta\<close> that names a property of the data
  itself: none of the four paths of the array branches, and not \<^verbatim>\<open>__proto__\<close>.
\<close>

definition ordinary_path :: "string \<Rightarrow> bool" where
  "ordinary_path path = (path \<notin> set [''rows'', ''items'', ''steps'', ''headers'', ''__proto__''])"

text \<open>The string at a path of the data, empty when the path holds no string.\<close>

definition string_at :: "(string \<rightharpoonup> val) \<Rightarrow> string \<Rightarrow> string" where
  "string_at d path = (case d path of Some (VStr e) \<Rightarrow> e | _ \<Rightarrow> [])"

text \<open>A block state with the string \<open>t\<close> stored at a path.\<close>

definition set_text :: "StreamingBlockState \<Rightarrow> string \<Rightarrow> string \<Rightarrow> StreamingBlockState" where
  "set_text st path t = st\<lparr>data := (data st)(path \<mapsto> VStr t)\<rparr>"

text \<open>The three events of the life of a block.\<close>

definition is_block_event :: "event \<Rightarrow> bool" where
  "is_block_event ev =
     (case ev of Block_start b t \<Rightarrow> True | Block_delta b p v \<Rightarrow> True | Block_end b q \<Rightarrow> True | _ \<Rightarrow> False)"

text \<open>A call that delivers a snapshot with \<^verbatim>\<open>streaming: false\<close>.\<close>

definition is_final :: "call \<Rightarrow> bool" where
  "is_final c = (case c of onMessageUpdate u \<Rightarrow> u_streaming u = Some False | _ \<Rightarrow> False)"

text \<open>
  The test of the code after the loop: some response text, citation or block has been
  received.
\<close>

definition has_content :: "StreamState \<Rightarrow> bool" where
  "has_content s =
     (fullResponse s \<noteq> [] \<or> citations s \<noteq> []
      \<or> buildBlocksFromState (completedBlocks s) (streamingBlocks s) \<noteq> [])"

text \<open>
  The data that \<^verbatim>\<open>applyBlockDelta\<close> builds never holds a string at one of the four
  paths of its array branches.
\<close>

definition arrays_ok :: "(string \<rightharpoonup> val) \<Rightarrow> bool" where
  "arrays_ok d = (list_all (\<lambda>p. case d p of Some (VStr t) \<Rightarrow> False | _ \<Rightarrow> True)
                    [''rows'', ''items'', ''steps'', ''headers''])"

definition wf_blocks :: "StreamState \<Rightarrow> bool" where
  "wf_blocks s =
     (list_all (\<lambda>kv. arrays_ok (data (snd kv))) (streamingBlocks s)
      \<and> list_all (\<lambda>blk. arrays_ok (cdata blk)) (completedBlocks s))"

text \<open>
  The message of the caller, kept as the header of the hook shows:
  \<^verbatim>\<open>onMessageUpdate: (updates) => setMessage(prev => ({ ...prev, ...updates }))\<close>.
  A key that the update has replaces the value of the message, also when its value is
  \<^verbatim>\<open>undefined\<close>.
\<close>

record Message =
  m_content :: string
  m_blocks :: "ContentBlock list option"
  m_citations :: "Citation list option"
  m_streaming :: "bool option"
  m_confidence :: "real option"

definition merge_update :: "Message \<Rightarrow> MessageUpdate \<Rightarrow> Message" where
  "merge_update prev u =
     \<lparr>m_content = (case u_content u of Some c \<Rightarrow> c | None \<Rightarrow> m_content prev),
      m_blocks = (case u_blocks u of Some b \<Rightarrow> b | None \<Rightarrow> m_blocks prev),
      m_citations = (case u_citations u of Some c \<Rightarrow> Some c | None \<Rightarrow> m_citations prev),
      m_streaming = (case u_streaming u of Some b \<Rightarrow> Some b | None \<Rightarrow> m_streaming prev),
      m_confidence = (case u_confidence u of Some c \<Rightarrow> Some c | None \<Rightarrow> m_confidence prev)\<rparr>"

fun message_after :: "Message \<Rightarrow> call list \<Rightarrow> Message" where
  "message_after prev [] = prev"
| "message_after prev (onMessageUpdate u # cs) = message_after (merge_update prev u) cs"
| "message_after prev (c # cs) = message_after prev cs"

definition empty_message :: Message where
  "empty_message = \<lparr>m_content = [], m_blocks = None, m_citations = None, m_streaming = None, m_confidence = None\<rparr>"

text \<open>The snapshots with \<^verbatim>\<open>streaming: false\<close> delivered so far.\<close>

definition finals :: "StreamState \<Rightarrow> call list" where
  "finals s = filter is_final (calls s)"

text \<open>
  What holds at the head of the loop over the lines of a chunk: the data of the blocks
  is well formed, a snapshot with \<^verbatim>\<open>streaming: false\<close> has been delivered exactly when
  the stop flag is set, and a \<^verbatim>\<open>done\<close> event has set the stop flag.
\<close>

definition line_inv :: "StreamState \<Rightarrow> bool" where
  "line_inv s =
     (wf_blocks s \<and> length (finals s) = (if stopStreamingRef s then 1 else 0)
      \<and> (receivedDoneEvent s \<longrightarrow> stopStreamingRef s))"

text \<open>
  What holds while the loop awaits a read: the stream is not stopped, and the timer is
  still set only if nothing has happened yet.
\<close>

definition reading :: "StreamState \<Rightarrow> bool" where
  "reading s =
     (streamReaderRef s \<and> \<not> stopStreamingRef s \<and> line_inv s
      \<and> (timeoutRef s \<noteq> None \<longrightarrow> s = initial))"

text \<open>What holds once \<^verbatim>\<open>streamQuery\<close> has returned.\<close>

definition returned :: "StreamState \<Rightarrow> bool" where
  "returned s = (\<not> streamReaderRef s \<and> timeoutRef s = None)"

section \<open>Properties of the SSE line parser\<close>

lemma trim_Nil_iff: "(trim s = []) = (\<forall>c\<in>set s. is_ws c)"
proof
  assume "trim s = []"
  then have a: "\<forall>c\<in>set (dropWhile is_ws s). is_ws c"
    by (simp add: trim_def dropWhile_eq_Nil_conv)
  have "dropWhile is_ws s = []"
  proof (cases "dropWhile is_ws s")
    case Nil then show ?thesis .
  next
    case (Cons x xs)
    then have "\<not> is_ws x" by (metis hd_dropWhile list.sel(1) list.distinct(1))
    moreover have "is_ws x" using a Cons by simp
    ultimately show ?thesis by simp
  qed
  then show "\<forall>c\<in>set s. is_ws c" by (simp add: dropWhile_eq_Nil_conv)
next
  assume "\<forall>c\<in>set s. is_ws c"
  then have h: "dropWhile is_ws s = []" by simp
  show "trim s = []" unfolding trim_def h by simp
qed

lemma blank_not_event: "trim line = [] \<Longrightarrow> \<not> startsWith line ''event:''"
proof
  assume b: "trim line = []" and e: "startsWith line ''event:''"
  from e have "line \<noteq> [] \<and> hd line = CHR ''e''" by (cases line) (auto simp: startsWith_def)
  then have "CHR ''e'' \<in> set line" by (cases line) auto
  with b have "is_ws (CHR ''e'')" by (simp add: trim_Nil_iff)
  then show False by (simp add: is_ws_def)
qed

lemma blank_not_data: "trim line = [] \<Longrightarrow> \<not> startsWith line ''data:''"
proof
  assume b: "trim line = []" and e: "startsWith line ''data:''"
  from e have "line \<noteq> [] \<and> hd line = CHR ''d''" by (cases line) (auto simp: startsWith_def)
  then have "CHR ''d'' \<in> set line" by (cases line) auto
  with b have "is_ws (CHR ''d'')" by (simp add: trim_Nil_iff)
  then show False by (simp add: is_ws_def)
qed

lemma event_not_data: "startsWith line ''event:'' \<Longrightarrow> \<not> startsWith line ''data:''"
  by (cases line) (auto simp: startsWith_def)

lemma parseLine_event:
  "startsWith line ''event:'' \<Longrightarrow> parseLine P line cur = (None, Some (trim (strip_prefix 6 line)))"
  by (simp add: parseLine_def)

lemma parseLine_data_ok:
  "startsWith line ''data:'' \<Longrightarrow> trim (strip_prefix 5 line) \<noteq> [] \<Longrightarrow>
   P (trim (strip_prefix 5 line)) = Some d \<Longrightarrow>
   parseLine P line cur = (Some \<lparr>eventName = (if cur = Some [] then None else cur), sse_data = d\<rparr>, None)"
  using event_not_data[of line]
  by (auto simp: parseLine_def Let_def split: option.splits)

lemma parseLine_data_bad:
  "startsWith line ''data:'' \<Longrightarrow>
   trim (strip_prefix 5 line) = [] \<or> P (trim (strip_prefix 5 line)) = None \<Longrightarrow>
   parseLine P line cur = (None, None)"
  using event_not_data[of line]
  by (auto simp: parseLine_def Let_def split: option.splits)

lemma parseLine_blank: "trim line = [] \<Longrightarrow> parseLine P line cur = (None, None)"
  using blank_not_event[of line] blank_not_data[of line]
  by (simp add: parseLine_def)

lemma parseLine_null:
  "\<not> (startsWith line ''data:'' \<and> trim (strip_prefix 5 line) \<noteq> [] \<and> P (trim (strip_prefix 5 line)) \<noteq> None) \<Longrightarrow>
   fst (parseLine P line cur) = None"
  by (auto simp: parseLine_def Let_def split: option.splits)

lemma parseSSELine_eq:
  "parseSSELine P line =
     (if startsWith line ''data:'' \<and> trim (strip_prefix 5 line) \<noteq> []
      then P (trim (strip_prefix 5 line)) else None)"
  by (auto simp: parseSSELine_def Let_def split: option.splits)

text \<open>A named event, a blank line and an unnamed event fed to one parser.\<close>

lemma parseLines_example:
  \<open>parseLines sample_parse [''event: block'', ''data: {"type":"done"}'', [], ''data: 42''] None
   = ([None, Some \<lparr>eventName = Some ''block'', sse_data = JObj [(''type'', JStr ''done'')]\<rparr>, None,
       Some \<lparr>eventName = None, sse_data = JNum 42\<rparr>], None)\<close>
  by (simp add: parseLine_def startsWith_def trim_def strip_prefix_def is_ws_def sample_parse_def)

text \<open>
  Claim C8. Whatever the pending event name \<open>cur\<close> left by the lines read before, so
  for every sequence of lines: a line that starts with \<^verbatim>\<open>event:\<close> records the name
  (the rest of the line, trimmed) and returns null; a line that starts with \<^verbatim>\<open>data:\<close>
  and whose payload is JSON returns the parsed data with the pending name attached (a
  pending name that is the empty string counts as none) and clears the pending name; a
  blank line returns null and clears the pending name; and a line that is not a
  \<^verbatim>\<open>data:\<close> line with a JSON payload returns null.
\<close>

theorem parseLine_by_kind_of_line:
  "(startsWith line ''event:'' \<longrightarrow>
      parseLine JSON_parse line cur = (None, Some (trim (strip_prefix 6 line))))
   \<and> (startsWith line ''data:'' \<and> trim (strip_prefix 5 line) \<noteq> []
        \<and> JSON_parse (trim (strip_prefix 5 line)) = Some d \<longrightarrow>
      parseLine JSON_parse line cur =
        (Some \<lparr>eventName = (if cur = Some [] then None else cur), sse_data = d\<rparr>, None))
   \<and> (trim line = [] \<longrightarrow> parseLine JSON_parse line cur = (None, None))
   \<and> (\<not> (startsWith line ''data:'' \<and> trim (strip_prefix 5 line) \<noteq> []
           \<and> JSON_parse (trim (strip_prefix 5 line)) \<noteq> None) \<longrightarrow>
      fst (parseLine JSON_parse line cur) = None)"
  using parseLine_event[of line JSON_parse cur] parseLine_data_ok[of line JSON_parse d cur]
    parseLine_blank[of line JSON_parse cur] parseLine_null[of line JSON_parse cur]
  by blast

theorem parseLine_by_kind_of_line_witness:
  \<open>startsWith ''event: block'' ''event:''
   \<and> parseLine sample_parse ''event: block'' None = (None, Some ''block'')
   \<and> startsWith ''data: {"type":"done"}'' ''data:''
   \<and> parseLine sample_parse ''data: {"type":"done"}'' (Some ''block'')
       = (Some \<lparr>eventName = Some ''block'', sse_data = JObj [(''type'', JStr ''done'')]\<rparr>, None)
   \<and> trim ''  '' = []
   \<and> parseLine sample_parse ''  '' (Some ''block'') = (None, None)
   \<and> \<not> startsWith '': comment'' ''data:''
   \<and> fst (parseLine sample_parse '': comment'' (Some ''block'')) = None\<close>
proof -
  have e: "startsWith ''event: block'' ''event:''" by (simp add: startsWith_def)
  have te: "trim (strip_prefix 6 ''event: block'') = ''block''"
    by (simp add: trim_def strip_prefix_def is_ws_def)
  have d: \<open>startsWith ''data: {"type":"done"}'' ''data:''\<close> by (simp add: startsWith_def)
  have td: \<open>trim (strip_prefix 5 ''data: {"type":"done"}'') = ''{"type":"done"}''\<close>
    by (simp add: trim_def strip_prefix_def is_ws_def)
  have pd: \<open>sample_parse ''{"type":"done"}'' = Some (JObj [(''type'', JStr ''done'')])\<close>
    by (simp add: sample_parse_def)
  have b: "trim ''  '' = []" by (simp add: trim_def is_ws_def)
  have c: "\<not> startsWith '': comment'' ''data:''" by (simp add: startsWith_def)
  show ?thesis
    using parseLine_by_kind_of_line[where line = "''event: block''" and JSON_parse = sample_parse and cur = None]
      parseLine_by_kind_of_line[where line = \<open>''data: {"type":"done"}''\<close> and JSON_parse = sample_parse
        and d = "JObj [(''type'', JStr ''done'')]" and cur = "Some ''block''"]
      parseLine_by_kind_of_line[where line = "''  ''" and JSON_parse = sample_parse and cur = "Some ''block''"]
      parseLine_by_kind_of_line[where line = "'': comment''" and JSON_parse = sample_parse and cur = "Some ''block''"]
      e te d td pd b c
    by simp
qed

text \<open>
  Claim C9. Both parsers are functions of the line with no exceptional result: the one
  operation that throws, \<^verbatim>\<open>JSON.parse\<close>, is caught inside. \<^verbatim>\<open>parseSSELine\<close> returns
  what \<^verbatim>\<open>JSON.parse\<close> returns on a \<^verbatim>\<open>data:\<close> line with a non-empty payload and null on
  every other line; on a \<^verbatim>\<open>data:\<close> line whose payload is empty or is not JSON both
  parsers return null, and \<^verbatim>\<open>parseLine\<close> clears the pending event name.
\<close>

theorem parsers_null_on_bad_payload:
  "parseSSELine JSON_parse line =
     (if startsWith line ''data:'' \<and> trim (strip_prefix 5 line) \<noteq> []
      then JSON_parse (trim (strip_prefix 5 line)) else None)
   \<and> (startsWith line ''data:''
        \<and> (trim (strip_prefix 5 line) = [] \<or> JSON_parse (trim (strip_prefix 5 line)) = None) \<longrightarrow>
      parseSSELine JSON_parse line = None \<and> parseLine JSON_parse line cur = (None, None))"
  using parseSSELine_eq[of JSON_parse line] parseLine_data_bad[of line JSON_parse cur]
  by auto

theorem parsers_null_on_bad_payload_witness:
  \<open>startsWith ''data: {"type":'' ''data:''
   \<and> sample_parse (trim (strip_prefix 5 ''data: {"type":'')) = None
   \<and> parseSSELine sample_parse ''data: {"type":'' = None
   \<and> parseLine sample_parse ''data: {"type":'' (Some ''block'') = (None, None)
   \<and> startsWith ''data:   '' ''data:''
   \<and> trim (strip_prefix 5 ''data:   '') = []
   \<and> parseSSELine sample_parse ''data:   '' = None
   \<and> parseLine sample_parse ''data:   '' (Some ''block'') = (None, None)
   \<and> parseSSELine sample_parse ''data: 42'' = Some (JNum 42)\<close>
proof -
  have d: \<open>startsWith ''data: {"type":'' ''data:''\<close> by (simp add: startsWith_def)
  have td: \<open>trim (strip_prefix 5 ''data: {"type":'') = ''{"type":''\<close>
    by (simp add: trim_def strip_prefix_def is_ws_def)
  have pd: \<open>sample_parse ''{"type":'' = None\<close> by (simp add: sample_parse_def)
  have e: "startsWith ''data:   '' ''data:''" by (simp add: startsWith_def)
  have te: "trim (strip_prefix 5 ''data:   '') = []"
    by (simp add: trim_def strip_prefix_def is_ws_def)
  have f: "startsWith ''data: 42'' ''data:''" by (simp add: startsWith_def)
  have tf: "trim (strip_prefix 5 ''data: 42'') = ''42''"
    by (simp add: trim_def strip_prefix_def is_ws_def)
  have pf: "sample_parse ''42'' = Some (JNum 42)" by (simp add: sample_parse_def)
  show ?thesis
    using parsers_null_on_bad_payload[where JSON_parse = sample_parse and line = \<open>''data: {"type":''\<close>
        and cur = "Some ''block''"]
      parsers_null_on_bad_payload[where JSON_parse = sample_parse and line = "''data:   ''"
        and cur = "Some ''block''"]
      parsers_null_on_bad_payload[where JSON_parse = sample_parse and line = "''data: 42''"
        and cur = "Some ''block''"]
      d td pd e te f tf pf
    by simp
qed

section \<open>Properties of the block assembly\<close>

subsection \<open>Merging one delta\<close>

lemma applyBlockDelta_array_new:
  "path = ''rows'' \<or> path = ''items'' \<or> path = ''steps'' \<Longrightarrow> \<not> truthy (data st path) \<Longrightarrow>
   applyBlockDelta st path v =
     Inr (st\<lparr>data := (data st)(path \<mapsto> VArr [if path = ''rows'' then cells v else VStr v])\<rparr>)"
  by (auto simp: applyBlockDelta_def Let_def)

lemma applyBlockDelta_array_push:
  "path = ''rows'' \<or> path = ''items'' \<or> path = ''steps'' \<Longrightarrow> data st path = Some (VArr arr) \<Longrightarrow>
   applyBlockDelta st path v =
     Inr (st\<lparr>data := (data st)(path \<mapsto> VArr (arr @ [if path = ''rows'' then cells v else VStr v]))\<rparr>)"
  by (auto simp: applyBlockDelta_def Let_def)

lemma applyBlockDelta_array_raise:
  "path = ''rows'' \<or> path = ''items'' \<or> path = ''steps'' \<Longrightarrow> data st path = Some (VStr t) \<Longrightarrow> t \<noteq> [] \<Longrightarrow>
   applyBlockDelta st path v = Inl (not_a_function ''arr.push'')"
  by (auto simp: applyBlockDelta_def Let_def)

lemma applyBlockDelta_headers:
  "applyBlockDelta st ''headers'' v = Inr (st\<lparr>data := (data st)(''headers'' \<mapsto> cells v)\<rparr>)"
  by (simp add: applyBlockDelta_def Let_def)

lemma applyBlockDelta_concat:
  "ordinary_path path \<Longrightarrow> data st path = Some (VStr existing) \<Longrightarrow>
   applyBlockDelta st path v = Inr (st\<lparr>data := (data st)(path \<mapsto> VStr (existing @ v))\<rparr>)"
  by (auto simp: applyBlockDelta_def Let_def ordinary_path_def)

lemma applyBlockDelta_replace:
  "ordinary_path path \<Longrightarrow> \<forall>existing. data st path \<noteq> Some (VStr existing) \<Longrightarrow>
   applyBlockDelta st path v = Inr (st\<lparr>data := (data st)(path \<mapsto> VStr v)\<rparr>)"
  by (auto simp: applyBlockDelta_def Let_def ordinary_path_def split: option.splits val.splits)

lemma applyBlockDelta_proto: "applyBlockDelta st ''__proto__'' v = Inr st"
  by (simp add: applyBlockDelta_def Let_def)


lemma scheduleUpdate_pending: "pendingUpdate s \<Longrightarrow> scheduleUpdate s = s"
  by (simp add: scheduleUpdate_def)

lemma set_text_twice: "set_text (set_text st path t) path t' = set_text st path t'"
  by (simp add: set_text_def)

lemma string_at_set_text: "string_at (data (set_text st path t)) path = t"
  by (simp add: set_text_def string_at_def)

lemma applyBlockDelta_text:
  "ordinary_path path \<Longrightarrow>
   applyBlockDelta st path v = Inr (set_text st path (string_at (data st) path @ v))"
  by (auto simp: applyBlockDelta_def Let_def ordinary_path_def string_at_def set_text_def split: option.splits val.splits)

lemma on_block_delta_open_text:
  assumes "ordinary_path path" "map_of (streamingBlocks s) b = Some st" "pendingUpdate s"
  shows "on_block_delta b path v s =
     s\<lparr>streamingBlocks := AList.update b (set_text st path (string_at (data st) path @ v)) (streamingBlocks s)\<rparr>"
  using assms by (simp add: on_block_delta_def applyBlockDelta_text scheduleUpdate_def)

lemma text_deltas:
  assumes "ordinary_path path"
  shows "map_of (streamingBlocks s) b = Some st \<Longrightarrow> pendingUpdate s \<Longrightarrow>
    handle_events conf (map (Block_delta b path) (v # vs)) s =
      s\<lparr>streamingBlocks := AList.update b (set_text st path (string_at (data st) path @ concat (v # vs))) (streamingBlocks s)\<rparr>"
proof (induction vs arbitrary: s st v)
  case Nil
  then show ?case using assms by (simp add: handle_event_def on_block_delta_open_text)
next
  case (Cons w ws)
  let ?st1 = "set_text st path (string_at (data st) path @ v)"
  let ?s1 = "s\<lparr>streamingBlocks := AList.update b ?st1 (streamingBlocks s)\<rparr>"
  have h: "handle_event conf (Block_delta b path v) s = ?s1"
    using Cons.prems assms by (simp add: handle_event_def on_block_delta_open_text)
  have m: "map_of (streamingBlocks ?s1) b = Some ?st1" by (simp add: update_conv')
  have p: "pendingUpdate ?s1" using Cons.prems by simp
  have "handle_events conf (map (Block_delta b path) (v # w # ws)) s
        = handle_events conf (map (Block_delta b path) (w # ws)) ?s1"
    using h by simp
  also have "\<dots> = ?s1\<lparr>streamingBlocks := AList.update b (set_text ?st1 path (string_at (data ?st1) path @ concat (w # ws))) (streamingBlocks ?s1)\<rparr>"
    by (rule Cons.IH[OF m p])
  also have "\<dots> = s\<lparr>streamingBlocks := AList.update b (set_text st path (string_at (data st) path @ concat (v # w # ws))) (streamingBlocks s)\<rparr>"
    by (simp add: set_text_twice string_at_set_text)
  finally show ?case .
qed


lemma handle_events_append:
  "handle_events conf (xs @ ys) s = handle_events conf ys (handle_events conf xs s)"
  by (induction xs arbitrary: s) auto

lemma text_deltas_fields:
  assumes "ordinary_path path" "map_of (streamingBlocks s) b = Some st" "pendingUpdate s" "vs \<noteq> []"
  shows "handle_events conf (map (Block_delta b path) vs) s =
      s\<lparr>streamingBlocks := AList.update b (set_text st path (string_at (data st) path @ concat vs)) (streamingBlocks s)\<rparr>"
proof -
  obtain w ws where "vs = w # ws" using assms(4) by (cases vs) auto
  then show ?thesis using text_deltas[OF assms(1-3), of conf w ws] by simp
qed

lemma stateToContentBlock_text:
  "stateToContentBlock ((set_text (new_block b ty) path t)\<lparr>streaming := False, partial := q\<rparr>)
     = \<lparr>ctype = ty, cdata = [''id'' \<mapsto> VStr b, path \<mapsto> VStr t]\<rparr>"
  by (simp add: stateToContentBlock_def set_text_def new_block_def)

lemma text_block_lifecycle:
  fixes conf :: real and b path :: string and ty :: "string option" and vs :: "string list"
    and p :: "bool option" and s :: StreamState
  assumes "ordinary_path path" "vs \<noteq> []"
  defines "s' \<equiv> handle_events conf (Block_start b ty # map (Block_delta b path) vs @ [Block_end b p]) s"
  shows "completedBlocks s' = completedBlocks s @
            [\<lparr>ctype = or_string ty ''text'', cdata = [''id'' \<mapsto> VStr b, path \<mapsto> VStr (concat vs)]\<rparr>]"
    and "streamingBlocks s' = AList.delete b (streamingBlocks s)"
    and "calls s' = calls s"
proof -
  let ?nb = "new_block b (or_string ty ''text'')"
  let ?s1 = "handle_event conf (Block_start b ty) s"
  have s1: "?s1 = scheduleUpdate (s\<lparr>streamingBlocks := AList.update b ?nb (streamingBlocks s)\<rparr>)"
    by (simp add: handle_event_def on_block_start_def)
  have m1: "map_of (streamingBlocks ?s1) b = Some ?nb"
    by (simp add: s1 scheduleUpdate_def update_conv')
  have p1: "pendingUpdate ?s1" by (simp add: s1 scheduleUpdate_def)
  have sb1: "streamingBlocks ?s1 = AList.update b ?nb (streamingBlocks s)"
    by (simp add: s1 scheduleUpdate_def)
  have c1: "completedBlocks ?s1 = completedBlocks s" "calls ?s1 = calls s"
    by (simp_all add: s1 scheduleUpdate_def)
  let ?st2 = "set_text ?nb path (concat vs)"
  let ?s2 = "handle_events conf (map (Block_delta b path) vs) ?s1"
  have e: "string_at (data ?nb) path = []" by (simp add: string_at_def new_block_def)
  have s2: "?s2 = ?s1\<lparr>streamingBlocks := AList.update b ?st2 (streamingBlocks ?s1)\<rparr>"
    using text_deltas_fields[OF assms(1) m1 p1 assms(2), of conf] e by simp
  have sb2: "streamingBlocks ?s2 = AList.update b ?st2 (streamingBlocks s)"
    by (simp add: s2 sb1)
  have m2: "map_of (streamingBlocks ?s2) b = Some ?st2" by (simp add: sb2 update_conv')
  have p2: "pendingUpdate ?s2" using p1 by (simp add: s2)
  have c2: "completedBlocks ?s2 = completedBlocks s" "calls ?s2 = calls s"
    using c1 by (simp_all add: s2)
  have s': "s' = handle_event conf (Block_end b p) ?s2"
    by (simp add: s'_def handle_events_append)
  have s3: "s' = ?s2\<lparr>completedBlocks := completedBlocks ?s2 @
                [stateToContentBlock (?st2\<lparr>streaming := False, partial := (case p of Some x \<Rightarrow> x | None \<Rightarrow> False)\<rparr>)],
              streamingBlocks := AList.delete b (streamingBlocks ?s2)\<rparr>"
    using m2 p2 by (simp add: s' handle_event_def on_block_end_def Let_def scheduleUpdate_pending)
  show "completedBlocks s' = completedBlocks s @
            [\<lparr>ctype = or_string ty ''text'', cdata = [''id'' \<mapsto> VStr b, path \<mapsto> VStr (concat vs)]\<rparr>]"
    by (simp add: s3 c2 stateToContentBlock_text)
  show "streamingBlocks s' = AList.delete b (streamingBlocks s)"
    by (simp add: s3 sb2 delete_update_same)
  show "calls s' = calls s"
    by (simp add: s3 c2)
qed

text \<open>
  The merge rules of \<^verbatim>\<open>applyBlockDelta\<close> on every path but \<^verbatim>\<open>__proto__\<close>: the three
  accumulating paths append (a row is split into trimmed cells first), \<^verbatim>\<open>headers\<close> is
  replaced by the cells, any other path concatenates onto a string and replaces
  anything else.
\<close>

lemma applyBlockDelta_merge_rules:
  "(path = ''rows'' \<or> path = ''items'' \<or> path = ''steps'' \<longrightarrow>
      (\<not> truthy (data st path) \<longrightarrow>
         applyBlockDelta st path v =
           Inr (st\<lparr>data := (data st)(path \<mapsto> VArr [if path = ''rows'' then cells v else VStr v])\<rparr>))
      \<and> (\<forall>arr. data st path = Some (VArr arr) \<longrightarrow>
         applyBlockDelta st path v =
           Inr (st\<lparr>data := (data st)(path \<mapsto> VArr (arr @ [if path = ''rows'' then cells v else VStr v]))\<rparr>)))
   \<and> applyBlockDelta st ''headers'' v = Inr (st\<lparr>data := (data st)(''headers'' \<mapsto> cells v)\<rparr>)
   \<and> (ordinary_path path \<longrightarrow>
      (\<forall>existing. data st path = Some (VStr existing) \<longrightarrow>
         applyBlockDelta st path v = Inr (st\<lparr>data := (data st)(path \<mapsto> VStr (existing @ v))\<rparr>))
      \<and> ((\<forall>existing. data st path \<noteq> Some (VStr existing)) \<longrightarrow>
         applyBlockDelta st path v = Inr (st\<lparr>data := (data st)(path \<mapsto> VStr v)\<rparr>)))"
  using applyBlockDelta_array_new[of path st v] applyBlockDelta_array_push[of path st _ v]
    applyBlockDelta_headers[of st v] applyBlockDelta_concat[of path st _ v]
    applyBlockDelta_replace[of path st v]
  by blast

text \<open>
  Claim C2, at the input where the source departs from it. A delta whose path is
  \<^verbatim>\<open>__proto__\<close> reaches the last branch with an existing value that is not a string,
  where the claim has the value at the path replaced; the assignment has no effect, the
  data is as before and holds nothing at that path, and the block that is then ended
  has the key \<^verbatim>\<open>id\<close> only.
\<close>

theorem proto_delta_dropped:
  "applyBlockDelta (new_block ''b1'' ''text'') ''__proto__'' ''x'' = Inr (new_block ''b1'' ''text'')
   \<and> data (new_block ''b1'' ''text'') ''__proto__'' \<noteq> Some (VStr ''x'')
   \<and> completedBlocks (handle_events 0
         [Block_start ''b1'' (Some ''text''), Block_delta ''b1'' ''__proto__'' ''x'',
          Block_end ''b1'' None] initial)
       = [\<lparr>ctype = ''text'', cdata = [''id'' \<mapsto> VStr ''b1'']\<rparr>]"
  by (simp add: applyBlockDelta_proto new_block_def handle_event_def on_block_start_def on_block_delta_def
      on_block_end_def or_string_def initial_def scheduleUpdate_def stateToContentBlock_def)

subsection \<open>The life of one block\<close>

lemma applyBlockDelta_keeps:
  "applyBlockDelta st path v = Inr st' \<Longrightarrow>
   block_type st' = block_type st \<and> block_id st' = block_id st"
  by (auto simp: applyBlockDelta_def Let_def split: if_splits option.splits val.splits)

lemma applyBlockDelta_fresh:
  "\<exists>st. applyBlockDelta (new_block b ty) path v = Inr st \<and> block_type st = ty \<and> block_id st = b"
  by (auto simp: applyBlockDelta_def Let_def new_block_def)

lemma update_fresh: "map_of al k = None \<Longrightarrow> AList.update k v al = al @ [(k, v)]"
  by (induction al) (auto split: if_splits)

lemma on_block_delta_open:
  assumes "map_of (streamingBlocks s) b = Some st"
  shows "\<exists>st'. map_of (streamingBlocks (on_block_delta b path v s)) b = Some st'
          \<and> block_type st' = block_type st \<and> block_id st' = block_id st"
    and "completedBlocks (on_block_delta b path v s) = completedBlocks s"
    and "calls (on_block_delta b path v s) = calls s"
  using assms
  by (auto simp: on_block_delta_def scheduleUpdate_def update_conv' dest: applyBlockDelta_keeps split: sum.splits)

lemma deltas_keep_type:
  "map_of (streamingBlocks s) b = Some st \<Longrightarrow>
   \<exists>st'. map_of (streamingBlocks (handle_events conf (map (\<lambda>(p, v). Block_delta b p v) ds) s)) b = Some st'
       \<and> block_type st' = block_type st \<and> block_id st' = block_id st
       \<and> completedBlocks (handle_events conf (map (\<lambda>(p, v). Block_delta b p v) ds) s) = completedBlocks s
       \<and> calls (handle_events conf (map (\<lambda>(p, v). Block_delta b p v) ds) s) = calls s"
proof (induction ds arbitrary: s st)
  case Nil
  then show ?case by simp
next
  case (Cons d ds)
  obtain p v where d: "d = (p, v)" by (cases d)
  let ?s1 = "on_block_delta b p v s"
  obtain st1 where m: "map_of (streamingBlocks ?s1) b = Some st1"
    and k: "block_type st1 = block_type st" "block_id st1 = block_id st"
    using on_block_delta_open(1)[OF Cons.prems, of p v] by auto
  have c: "completedBlocks ?s1 = completedBlocks s" "calls ?s1 = calls s"
    using on_block_delta_open(2,3)[OF Cons.prems] by auto
  show ?case using Cons.IH[OF m] k c d by (simp add: handle_event_def)
qed

lemma on_block_end_open:
  assumes "map_of (streamingBlocks s) b = Some st"
  shows "completedBlocks (on_block_end b q s) = completedBlocks s @
            [\<lparr>ctype = block_type st, cdata = [''id'' \<mapsto> VStr (block_id st)] ++ data st\<rparr>]"
    and "streamingBlocks (on_block_end b q s) = AList.delete b (streamingBlocks s)"
    and "calls (on_block_end b q s) = calls s"
  using assms by (simp_all add: on_block_end_def Let_def scheduleUpdate_def stateToContentBlock_def)

lemma on_block_end_unseen: "map_of (streamingBlocks s) b = None \<Longrightarrow> on_block_end b q s = s"
  by (simp add: on_block_end_def)

lemma on_block_delta_unseen:
  assumes "map_of (streamingBlocks s) b = None"
  shows "\<exists>st. applyBlockDelta (new_block b ''text'') path v = Inr st
           \<and> block_type st = ''text'' \<and> block_id st = b
           \<and> on_block_delta b path v s = scheduleUpdate (s\<lparr>streamingBlocks := streamingBlocks s @ [(b, st)]\<rparr>)"
proof -
  obtain st where a: "applyBlockDelta (new_block b ''text'') path v = Inr st"
    and k: "block_type st = ''text''" "block_id st = b"
    using applyBlockDelta_fresh by blast
  have "on_block_delta b path v s = scheduleUpdate (s\<lparr>streamingBlocks := AList.update b st (streamingBlocks s)\<rparr>)"
    using assms a by (simp add: on_block_delta_def update_conv')
  then have "on_block_delta b path v s = scheduleUpdate (s\<lparr>streamingBlocks := streamingBlocks s @ [(b, st)]\<rparr>)"
    using assms by (simp add: update_fresh)
  then show ?thesis using a k by blast
qed

lemma unknown_type_lifecycle:
  fixes conf :: real and b ty :: string and ds :: "(string \<times> string) list" and q :: "bool option" and s :: StreamState
  assumes "ty \<noteq> []"
  defines "s1 \<equiv> handle_events conf (Block_start b (Some ty) # map (\<lambda>(p, v). Block_delta b p v) ds) s"
  shows "\<exists>st. map_of (streamingBlocks s1) b = Some st \<and> block_type st = ty \<and> block_id st = b
           \<and> completedBlocks (handle_event conf (Block_end b q) s1)
               = completedBlocks s @ [\<lparr>ctype = ty, cdata = [''id'' \<mapsto> VStr b] ++ data st\<rparr>]
           \<and> calls (handle_event conf (Block_end b q) s1) = calls s"
proof -
  let ?s0 = "handle_event conf (Block_start b (Some ty)) s"
  have s0: "?s0 = scheduleUpdate (s\<lparr>streamingBlocks := AList.update b (new_block b ty) (streamingBlocks s)\<rparr>)"
    using assms(1) by (simp add: handle_event_def on_block_start_def or_string_def)
  have m0: "map_of (streamingBlocks ?s0) b = Some (new_block b ty)"
    by (simp add: s0 scheduleUpdate_def update_conv')
  have c0: "completedBlocks ?s0 = completedBlocks s" "calls ?s0 = calls s"
    by (simp_all add: s0 scheduleUpdate_def)
  obtain st where m: "map_of (streamingBlocks s1) b = Some st"
    and k: "block_type st = ty" "block_id st = b"
    and c: "completedBlocks s1 = completedBlocks s" "calls s1 = calls s"
    using deltas_keep_type[OF m0, of conf ds] c0 by (auto simp: s1_def new_block_def)
  show ?thesis
    using m k c on_block_end_open[OF m, of q] by (auto simp: handle_event_def)
qed



text \<open>
  Claim C1 as stated fails. A block declared with the type \<^verbatim>\<open>future_kind\<close>, not a
  known one, is assembled with that type, not with \<^verbatim>\<open>unknown\<close>, and its data has the
  key \<^verbatim>\<open>id\<close> only: there is no sub-field that wraps the original type and data.
\<close>

theorem unknown_type_counterexample:
  "''future_kind'' \<notin> set known_block_types
   \<and> completedBlocks (handle_events 0
        [Block_start ''b2'' (Some ''future_kind''), Block_end ''b2'' None] initial)
     = [\<lparr>ctype = ''future_kind'', cdata = [''id'' \<mapsto> VStr ''b2'']\<rparr>]
   \<and> ctype (hd (completedBlocks (handle_events 0
        [Block_start ''b2'' (Some ''future_kind''), Block_end ''b2'' None] initial))) \<noteq> ''unknown''
   \<and> cdata (hd (completedBlocks (handle_events 0
        [Block_start ''b2'' (Some ''future_kind''), Block_end ''b2'' None] initial))) ''raw'' = None"
  by (simp add: known_block_types_def handle_event_def on_block_start_def on_block_end_def
      or_string_def initial_def scheduleUpdate_def new_block_def stateToContentBlock_def)

text \<open>
  Claim C1 as amended. A block declared with a non-empty type that is not a known one
  keeps that type: after its start and any deltas it is open under its id with the
  declared type, and its end appends a content block of the declared type whose data is
  the accumulated data with the key \<^verbatim>\<open>id\<close>, at the top level. No callback is called on
  the way, so nothing is reported as an error.
\<close>

theorem unknown_type_kept:
  "ty \<notin> set known_block_types \<Longrightarrow> ty \<noteq> [] \<Longrightarrow>
   \<exists>st. map_of (streamingBlocks (handle_events conf
                 (Block_start b (Some ty) # map (\<lambda>(p, v). Block_delta b p v) ds) s)) b = Some st
        \<and> block_type st = ty \<and> block_id st = b
        \<and> completedBlocks (handle_event conf (Block_end b q)
             (handle_events conf (Block_start b (Some ty) # map (\<lambda>(p, v). Block_delta b p v) ds) s))
           = completedBlocks s @ [\<lparr>ctype = ty, cdata = [''id'' \<mapsto> VStr b] ++ data st\<rparr>]
        \<and> calls (handle_event conf (Block_end b q)
             (handle_events conf (Block_start b (Some ty) # map (\<lambda>(p, v). Block_delta b p v) ds) s))
           = calls s"
  using unknown_type_lifecycle[where ty = ty and conf = conf and b = b and ds = ds and q = q and s = s] by simp

theorem unknown_type_kept_witness:
  "''future_kind'' \<notin> set known_block_types \<and> ''future_kind'' \<noteq> []
   \<and> (\<exists>st. map_of (streamingBlocks (handle_events 0
                 (Block_start ''b2'' (Some ''future_kind'') # map (\<lambda>(p, v). Block_delta ''b2'' p v) [(''body'', ''x'')]) initial)) ''b2'' = Some st
        \<and> block_type st = ''future_kind'' \<and> block_id st = ''b2''
        \<and> completedBlocks (handle_event 0 (Block_end ''b2'' None)
             (handle_events 0 (Block_start ''b2'' (Some ''future_kind'') # map (\<lambda>(p, v). Block_delta ''b2'' p v) [(''body'', ''x'')]) initial))
           = completedBlocks initial @ [\<lparr>ctype = ''future_kind'', cdata = [''id'' \<mapsto> VStr ''b2''] ++ data st\<rparr>]
        \<and> calls (handle_event 0 (Block_end ''b2'' None)
             (handle_events 0 (Block_start ''b2'' (Some ''future_kind'') # map (\<lambda>(p, v). Block_delta ''b2'' p v) [(''body'', ''x'')]) initial))
           = calls initial)"
proof -
  have a: "''future_kind'' \<notin> set known_block_types" by (simp add: known_block_types_def)
  have b: "''future_kind'' \<noteq> []" by simp
  show ?thesis
    using unknown_type_kept[OF a b, where conf = 0 and b = "''b2''" and ds = "[(''body'', ''x'')]"
        and q = None and s = initial] a b
    by blast
qed

text \<open>
  Claim C4 as stated fails. A \<^verbatim>\<open>block_end\<close> for an id that no \<^verbatim>\<open>block_start\<close> preceded
  is handled without any block being synthesized: the state is what it was, with no
  open and no completed block.
\<close>

theorem block_end_unseen_counterexample:
  "handle_events 0 [Block_end ''b9'' None] initial = initial
   \<and> map_of (streamingBlocks (handle_events 0 [Block_end ''b9'' None] initial)) ''b9'' = None
   \<and> completedBlocks (handle_events 0 [Block_end ''b9'' None] initial) = []"
  by (simp add: handle_event_def on_block_end_def initial_def)

text \<open>
  Claim C4 as amended. For an id that is not open, a \<^verbatim>\<open>block_delta\<close> synthesizes a
  block of type \<^verbatim>\<open>text\<close> with empty data under that id, applies the delta to it and
  adds it after the open blocks, and a \<^verbatim>\<open>block_end\<close> is ignored: the state is
  unchanged.
\<close>

theorem block_id_not_open:
  "map_of (streamingBlocks s) b = None \<Longrightarrow>
   (\<exists>st. applyBlockDelta (new_block b ''text'') path v = Inr st
        \<and> block_type st = ''text'' \<and> block_id st = b
        \<and> handle_event conf (Block_delta b path v) s
            = scheduleUpdate (s\<lparr>streamingBlocks := streamingBlocks s @ [(b, st)]\<rparr>))
   \<and> handle_event conf (Block_end b p) s = s"
  using on_block_delta_unseen[of s b path v] on_block_end_unseen[of s b p]
  by (simp add: handle_event_def)

theorem block_id_not_open_witness:
  "map_of (streamingBlocks initial) ''b9'' = None
   \<and> (\<exists>st. applyBlockDelta (new_block ''b9'' ''text'') ''content'' ''x'' = Inr st
        \<and> block_type st = ''text'' \<and> block_id st = ''b9''
        \<and> handle_event 0 (Block_delta ''b9'' ''content'' ''x'') initial
            = scheduleUpdate (initial\<lparr>streamingBlocks := streamingBlocks initial @ [(''b9'', st)]\<rparr>))
   \<and> handle_event 0 (Block_end ''b9'' None) initial = initial"
proof -
  have a: "map_of (streamingBlocks initial) ''b9'' = None" by (simp add: initial_def)
  show ?thesis
    using block_id_not_open[OF a, where path = "''content''" and v = "''x''" and conf = 0 and p = None] a
    by blast
qed


section \<open>Properties of the stream\<close>

subsection \<open>Completed blocks only grow\<close>

lemma completed_emit [simp]: "completedBlocks (emit c s) = completedBlocks s"
  by (simp add: emit_def)

lemma completed_scheduleUpdate [simp]: "completedBlocks (scheduleUpdate s) = completedBlocks s"
  by (simp add: scheduleUpdate_def)

lemma completed_cancel [simp]: "completedBlocks (cancelScheduledUpdate s) = completedBlocks s"
  by (simp add: cancelScheduledUpdate_def)

lemma completed_on_block_end:
  "prefix (completedBlocks s) (completedBlocks (on_block_end b q s))"
  by (simp add: on_block_end_def Let_def split: option.splits)

lemma completed_on_block_delta [simp]:
  "completedBlocks (on_block_delta b path v s) = completedBlocks s"
  by (simp add: on_block_delta_def Let_def split: option.splits sum.splits)

lemma completed_on_done [simp]: "completedBlocks (on_done conf m c s) = completedBlocks s"
  by (simp add: on_done_def Let_def split: option.splits sum.splits)

lemma completed_on_error [simp]: "completedBlocks (on_error e d m s) = completedBlocks s"
  by (simp add: on_error_def Let_def)

lemma completed_handle_event:
  "prefix (completedBlocks s) (completedBlocks (handle_event conf ev s))"
  by (cases ev) (simp_all add: handle_event_def on_block_start_def Let_def completed_on_block_end
      split: option.splits)

lemma completed_process_line:
  "prefix (completedBlocks s) (completedBlocks (process_line decode conf line s))"
  by (simp add: process_line_def completed_handle_event split: option.splits)

lemma completed_process_lines:
  "prefix (completedBlocks s) (completedBlocks (process_lines decode conf ls s))"
proof (induction ls arbitrary: s)
  case Nil
  then show ?case by simp
next
  case (Cons l ls)
  show ?case
    using Cons.IH[of "process_line decode conf l s"] completed_process_line[of s decode conf l]
    by (auto intro: prefix_order.trans)
qed

lemma completed_process_lines_from:
  "completedBlocks s0 = completedBlocks s \<Longrightarrow>
   prefix (completedBlocks s) (completedBlocks (process_lines decode conf ls s0))"
  using completed_process_lines[of s0 decode conf ls] by simp

lemma completed_on_chunk:
  "prefix (completedBlocks s) (completedBlocks (on_chunk decode conf text s))"
  by (simp add: on_chunk_def Let_def completed_process_lines_from)

lemma completed_catch_block [simp]: "completedBlocks (catch_block err s) = completedBlocks s"
  by (simp add: catch_block_def Let_def)

lemma completed_finally [simp]: "completedBlocks (finally_block s) = completedBlocks s"
  by (simp add: finally_block_def)

lemma completed_after_loop [simp]: "completedBlocks (after_loop s) = completedBlocks s"
  by (simp add: after_loop_def Let_def split: sum.splits)

lemma completed_frame [simp]: "completedBlocks (frame_callback s) = completedBlocks s"
  by (simp add: frame_callback_def Let_def split: sum.splits)

lemma completed_timeout [simp]: "completedBlocks (timeout_callback s) = completedBlocks s"
  by (simp add: timeout_callback_def Let_def)

lemma completed_step:
  "prefix (completedBlocks s) (completedBlocks (step decode conf i s))"
  by (cases i) (simp_all add: step_def Let_def completed_on_chunk)

lemma completed_run:
  "prefix (completedBlocks s) (completedBlocks (run decode conf ins s))"
proof (induction ins arbitrary: s)
  case Nil
  then show ?case by simp
next
  case (Cons i ins)
  show ?case
    using Cons.IH[of "step decode conf i s"] completed_step[of s decode conf i]
    by (auto intro: prefix_order.trans)
qed

subsection \<open>The data of the blocks stays well formed\<close>

lemma arrays_ok_iff:
  "arrays_ok d = ((\<forall>t. d ''rows'' \<noteq> Some (VStr t)) \<and> (\<forall>t. d ''items'' \<noteq> Some (VStr t))
                  \<and> (\<forall>t. d ''steps'' \<noteq> Some (VStr t)) \<and> (\<forall>t. d ''headers'' \<noteq> Some (VStr t)))"
  by (auto simp: arrays_ok_def split: option.splits val.splits)

lemma arrays_ok_empty: "arrays_ok Map.empty"
  by (simp add: arrays_ok_iff)

lemma arrays_ok_new_block: "arrays_ok (data (new_block b ty))"
  by (simp add: new_block_def arrays_ok_empty)

lemma arrays_ok_upd_arr: "arrays_ok d \<Longrightarrow> arrays_ok (d(p \<mapsto> VArr xs))"
  by (simp add: arrays_ok_iff)

lemma arrays_ok_upd_ordinary: "arrays_ok d \<Longrightarrow> ordinary_path p \<Longrightarrow> arrays_ok (d(p \<mapsto> v))"
  by (auto simp: arrays_ok_iff ordinary_path_def)

lemma applyBlockDelta_arrays_ok:
  assumes ok: "arrays_ok (data st)"
  shows "\<exists>st'. applyBlockDelta st path v = Inr st' \<and> arrays_ok (data st')"
proof -
  consider (arr) "path = ''rows'' \<or> path = ''items'' \<or> path = ''steps''"
    | (hdr) "path = ''headers''" | (proto) "path = ''__proto__''" | (ord) "ordinary_path path"
    by (auto simp: ordinary_path_def)
  then show ?thesis
  proof cases
    case arr
    then have ns: "\<forall>t. data st path \<noteq> Some (VStr t)" using ok by (auto simp: arrays_ok_iff)
    show ?thesis
    proof (cases "data st path")
      case None
      then have "\<not> truthy (data st path)" by simp
      then show ?thesis
        using applyBlockDelta_array_new[OF arr, of st v] ok by (simp add: arrays_ok_upd_arr)
    next
      case (Some x)
      then obtain xs where "data st path = Some (VArr xs)" using ns by (cases x) auto
      then show ?thesis
        using applyBlockDelta_array_push[OF arr, of st xs v] ok by (simp add: arrays_ok_upd_arr)
    qed
  next
    case hdr
    then show ?thesis using ok by (simp add: applyBlockDelta_headers cells_def arrays_ok_upd_arr)
  next
    case proto
    then show ?thesis using ok by (simp add: applyBlockDelta_proto)
  next
    case ord
    then show ?thesis using ok by (simp add: applyBlockDelta_text set_text_def arrays_ok_upd_ordinary)
  qed
qed

lemma id_add_other: "p \<noteq> ''id'' \<Longrightarrow> ([''id'' \<mapsto> x] ++ d) p = d p"
  by (simp add: map_add_def split: option.splits)

lemma arrays_ok_content_block:
  "arrays_ok (data st) \<Longrightarrow> arrays_ok (cdata (stateToContentBlock st))"
  by (simp add: arrays_ok_iff stateToContentBlock_def id_add_other)

lemma or_array_ok: "(\<forall>t. x \<noteq> Some (VStr t)) \<Longrightarrow> \<exists>xs. or_array what x = Inr xs"
  by (cases x; cases "the x") (auto simp: or_array_def)

lemma block_text_ok: "arrays_ok (cdata blk) \<Longrightarrow> \<exists>v. block_text blk = Inr v"
proof -
  assume a: "arrays_ok (cdata blk)"
  obtain xi where i: "or_array ''(data.items || []).join'' (cdata blk ''items'') = Inr xi"
    using a or_array_ok[where x = "cdata blk ''items''" and what = "''(data.items || []).join''"]
    by (auto simp: arrays_ok_iff)
  obtain xs where s: "or_array ''(data.steps || []).map'' (cdata blk ''steps'') = Inr xs"
    using a or_array_ok[where x = "cdata blk ''steps''" and what = "''(data.steps || []).map''"]
    by (auto simp: arrays_ok_iff)
  obtain xh where h: "or_array ''(data.headers || []).join'' (cdata blk ''headers'') = Inr xh"
    using a or_array_ok[where x = "cdata blk ''headers''" and what = "''(data.headers || []).join''"]
    by (auto simp: arrays_ok_iff)
  show ?thesis by (simp add: block_text_def Let_def i s h)
qed

lemma map_blocks_ok: "list_all (\<lambda>blk. arrays_ok (cdata blk)) bs \<Longrightarrow> \<exists>vs. map_blocks bs = Inr vs"
proof (induction bs)
  case Nil
  then show ?case by simp
next
  case (Cons b bs)
  obtain v where v: "block_text b = Inr v" using Cons.prems block_text_ok by auto
  obtain vs where vs: "map_blocks bs = Inr vs" using Cons by auto
  show ?case by (simp add: v vs)
qed

lemma build_ok:
  "wf_blocks s \<Longrightarrow>
   list_all (\<lambda>blk. arrays_ok (cdata blk)) (buildBlocksFromState (completedBlocks s) (streamingBlocks s))"
  by (auto simp: wf_blocks_def buildBlocksFromState_def list_all_iff arrays_ok_content_block)

lemma fallback_ok:
  "wf_blocks s \<Longrightarrow>
   \<exists>t. blocksToTextFallback (buildBlocksFromState (completedBlocks s) (streamingBlocks s)) = Inr t"
proof -
  assume "wf_blocks s"
  then obtain vs where "map_blocks (buildBlocksFromState (completedBlocks s) (streamingBlocks s)) = Inr vs"
    using map_blocks_ok[OF build_ok] by blast
  then show ?thesis by (simp add: blocksToTextFallback_def)
qed

lemma list_all_update:
  "list_all P al \<Longrightarrow> P (k, v) \<Longrightarrow> list_all P (AList.update k v al)"
  by (induction al) auto

lemma list_all_delete: "list_all P al \<Longrightarrow> list_all P (AList.delete k al)"
  by (induction al) auto

lemma list_all_lookup: "list_all P al \<Longrightarrow> map_of al k = Some v \<Longrightarrow> P (k, v)"
  by (auto simp: list_all_iff dest: map_of_SomeD)

lemma wf_on_block_start: "wf_blocks s \<Longrightarrow> wf_blocks (on_block_start b ty s)"
  by (auto simp: wf_blocks_def on_block_start_def scheduleUpdate_def Let_def arrays_ok_new_block
      intro: list_all_update)

lemma on_block_delta_form:
  assumes w: "wf_blocks s"
  shows "\<exists>st'. arrays_ok (data st')
           \<and> on_block_delta b path v s
               = scheduleUpdate (s\<lparr>streamingBlocks := AList.update b st' (streamingBlocks s)\<rparr>)"
proof (cases "map_of (streamingBlocks s) b")
  case None
  obtain st' where a: "applyBlockDelta (new_block b ''text'') path v = Inr st'" and ok': "arrays_ok (data st')"
    using applyBlockDelta_arrays_ok[OF arrays_ok_new_block] by blast
  have "on_block_delta b path v s
          = scheduleUpdate (s\<lparr>streamingBlocks := AList.update b st' (streamingBlocks s)\<rparr>)"
    using None a by (simp add: on_block_delta_def update_conv')
  then show ?thesis using ok' by blast
next
  case (Some st)
  have ok: "arrays_ok (data st)"
    using list_all_lookup[of "\<lambda>kv. arrays_ok (data (snd kv))" "streamingBlocks s" b st] w Some
    by (simp add: wf_blocks_def)
  obtain st' where a: "applyBlockDelta st path v = Inr st'" and ok': "arrays_ok (data st')"
    using applyBlockDelta_arrays_ok[OF ok] by blast
  have "on_block_delta b path v s
          = scheduleUpdate (s\<lparr>streamingBlocks := AList.update b st' (streamingBlocks s)\<rparr>)"
    using Some a by (simp add: on_block_delta_def)
  then show ?thesis using ok' by blast
qed

lemma wf_on_block_delta: "wf_blocks s \<Longrightarrow> wf_blocks (on_block_delta b path v s)"
proof -
  assume w: "wf_blocks s"
  obtain st' where ok': "arrays_ok (data st')"
    and f: "on_block_delta b path v s
               = scheduleUpdate (s\<lparr>streamingBlocks := AList.update b st' (streamingBlocks s)\<rparr>)"
    using on_block_delta_form[OF w] by blast
  show ?thesis
    using w ok' by (simp add: f wf_blocks_def scheduleUpdate_def list_all_update)
qed

lemma wf_on_block_end: "wf_blocks s \<Longrightarrow> wf_blocks (on_block_end b q s)"
proof -
  assume w: "wf_blocks s"
  show ?thesis
  proof (cases "map_of (streamingBlocks s) b")
    case None
    then show ?thesis using w by (simp add: on_block_end_def)
  next
    case (Some st)
    have ok: "arrays_ok (data st)"
      using list_all_lookup[of "\<lambda>kv. arrays_ok (data (snd kv))" "streamingBlocks s" b st] w Some
      by (simp add: wf_blocks_def)
    have "arrays_ok (cdata (stateToContentBlock (st\<lparr>streaming := False, partial := (case q of Some x \<Rightarrow> x | None \<Rightarrow> False)\<rparr>)))"
      using arrays_ok_content_block[of "st\<lparr>streaming := False, partial := (case q of Some x \<Rightarrow> x | None \<Rightarrow> False)\<rparr>"] ok
      by simp
    then show ?thesis
      using w Some by (auto simp: on_block_end_def Let_def wf_blocks_def scheduleUpdate_def intro: list_all_delete)
  qed
qed


subsection \<open>Snapshots with \<^verbatim>\<open>streaming: false\<close> across one chunk\<close>

lemma finals_emit: "finals (emit c s) = finals s @ (if is_final c then [c] else [])"
  by (simp add: finals_def emit_def)

lemma wf_emit [simp]: "wf_blocks (emit c s) = wf_blocks s"
  by (simp add: wf_blocks_def emit_def)

lemma line_inv_emit:
  "\<not> is_final c \<Longrightarrow> line_inv (emit c s) = line_inv s"
  by (simp add: line_inv_def finals_emit) (simp add: emit_def)

lemma line_inv_schedule: "line_inv (scheduleUpdate s) = line_inv s"
  by (simp add: line_inv_def scheduleUpdate_def wf_blocks_def finals_def)

lemma line_inv_fields:
  "wf_blocks s' = wf_blocks s \<Longrightarrow> calls s' = calls s \<Longrightarrow> stopStreamingRef s' = stopStreamingRef s \<Longrightarrow>
   receivedDoneEvent s' = receivedDoneEvent s \<Longrightarrow> line_inv s' = line_inv s"
  by (simp add: line_inv_def finals_def)

lemma on_block_start_fields:
  "calls (on_block_start b ty s) = calls s" "stopStreamingRef (on_block_start b ty s) = stopStreamingRef s"
  "receivedDoneEvent (on_block_start b ty s) = receivedDoneEvent s"
  "timeoutRef (on_block_start b ty s) = timeoutRef s"
  by (simp_all add: on_block_start_def Let_def scheduleUpdate_def)

lemma on_block_delta_fields:
  "calls (on_block_delta b path v s) = calls s" "stopStreamingRef (on_block_delta b path v s) = stopStreamingRef s"
  "receivedDoneEvent (on_block_delta b path v s) = receivedDoneEvent s"
  "timeoutRef (on_block_delta b path v s) = timeoutRef s"
  by (simp_all add: on_block_delta_def Let_def scheduleUpdate_def split: option.splits sum.splits)

lemma on_block_end_fields:
  "calls (on_block_end b q s) = calls s" "stopStreamingRef (on_block_end b q s) = stopStreamingRef s"
  "receivedDoneEvent (on_block_end b q s) = receivedDoneEvent s"
  "timeoutRef (on_block_end b q s) = timeoutRef s"
  by (simp_all add: on_block_end_def Let_def scheduleUpdate_def split: option.splits)

lemma line_inv_blocks:
  assumes "line_inv s"
  shows "line_inv (on_block_start b ty s)" "line_inv (on_block_delta b path v s)" "line_inv (on_block_end b q s)"
  using assms wf_on_block_start[of s b ty] wf_on_block_delta[of s b path v] wf_on_block_end[of s b q]
  by (simp_all add: line_inv_def finals_def on_block_start_fields on_block_delta_fields on_block_end_fields)

lemma on_done_finals:
  assumes "wf_blocks s"
  shows "length (finals (on_done conf m c s)) = length (finals s) + 1"
proof -
  obtain t where t: "blocksToTextFallback (buildBlocksFromState (completedBlocks s) (streamingBlocks s)) = Inr t"
    using fallback_ok[OF assms] by blast
  show ?thesis
    using t by (simp add: on_done_def Let_def cancelScheduledUpdate_def emit_def finals_def is_final_def
        split: option.splits)
qed

lemma on_done_fields:
  assumes "wf_blocks s"
  shows "stopStreamingRef (on_done conf m c s)" "receivedDoneEvent (on_done conf m c s)"
    "wf_blocks (on_done conf m c s)" "timeoutRef (on_done conf m c s) = None"
proof -
  obtain t where t: "blocksToTextFallback (buildBlocksFromState (completedBlocks s) (streamingBlocks s)) = Inr t"
    using fallback_ok[OF assms] by blast
  show "stopStreamingRef (on_done conf m c s)" "receivedDoneEvent (on_done conf m c s)"
    "wf_blocks (on_done conf m c s)" "timeoutRef (on_done conf m c s) = None"
    using t assms by (simp_all add: on_done_def Let_def cancelScheduledUpdate_def emit_def wf_blocks_def
        split: option.splits)
qed

lemma on_error_finals: "length (finals (on_error e d m s)) = length (finals s) + 1"
  by (simp add: on_error_def Let_def cancelScheduledUpdate_def emit_def finals_def is_final_def no_update_def)

lemma on_error_fields:
  "stopStreamingRef (on_error e d m s)" "receivedDoneEvent (on_error e d m s) = receivedDoneEvent s"
  "wf_blocks (on_error e d m s) = wf_blocks s" "timeoutRef (on_error e d m s) = timeoutRef s"
  by (simp_all add: on_error_def Let_def cancelScheduledUpdate_def emit_def wf_blocks_def)

lemma line_inv_handle_event:
  assumes "line_inv s" "\<not> stopStreamingRef s"
  shows "line_inv (handle_event conf ev s)"
proof (cases ev)
  case (Done m c)
  then show ?thesis
    using assms on_done_finals[of s conf m c] on_done_fields[of s conf m c]
    by (simp add: handle_event_def line_inv_def)
next
  case (Error e d m)
  then show ?thesis
    using assms on_error_finals[of e d m s] on_error_fields[of e d m s]
    by (simp add: handle_event_def line_inv_def)
next
  case (Block_start b ty)
  then show ?thesis using line_inv_blocks(1)[OF assms(1)] by (simp add: handle_event_def)
next
  case (Block_delta b path v)
  then show ?thesis using line_inv_blocks(2)[OF assms(1)] by (simp add: handle_event_def)
next
  case (Block_end b q)
  then show ?thesis using line_inv_blocks(3)[OF assms(1)] by (simp add: handle_event_def)
qed (use assms in \<open>auto simp: handle_event_def Let_def line_inv_def finals_def emit_def is_final_def
      no_update_def wf_blocks_def split: option.splits\<close>)

lemma timeout_handle_event:
  "timeoutRef s = None \<Longrightarrow> timeoutRef (handle_event conf ev s) = None"
  by (cases ev) (auto simp: handle_event_def Let_def emit_def on_block_start_fields on_block_delta_fields
      on_block_end_fields on_error_fields on_done_def cancelScheduledUpdate_def split: option.splits sum.splits)

lemma reader_handle_event:
  "streamReaderRef (handle_event conf ev s) = streamReaderRef s"
  by (cases ev) (auto simp: handle_event_def Let_def emit_def on_block_start_def on_block_delta_def
      on_block_end_def on_error_def on_done_def cancelScheduledUpdate_def scheduleUpdate_def
      split: option.splits sum.splits)

lemma line_inv_process_line:
  "line_inv s \<Longrightarrow> \<not> stopStreamingRef s \<Longrightarrow> line_inv (process_line decode conf l s)"
  by (simp add: process_line_def line_inv_handle_event split: option.splits)

lemma timeout_process_line:
  "timeoutRef s = None \<Longrightarrow> timeoutRef (process_line decode conf l s) = None"
  by (simp add: process_line_def timeout_handle_event split: option.splits)

lemma reader_process_line:
  "streamReaderRef (process_line decode conf l s) = streamReaderRef s"
  by (simp add: process_line_def reader_handle_event split: option.splits)

lemma process_lines_inv:
  "line_inv s \<Longrightarrow> timeoutRef s = None \<Longrightarrow>
   line_inv (process_lines decode conf ls s) \<and> timeoutRef (process_lines decode conf ls s) = None
   \<and> streamReaderRef (process_lines decode conf ls s) = streamReaderRef s"
proof (induction ls arbitrary: s)
  case Nil
  then show ?case by simp
next
  case (Cons l ls)
  show ?case
  proof (cases "stopStreamingRef s")
    case True
    then show ?thesis using Cons.prems by simp
  next
    case False
    then show ?thesis
      using Cons.IH[of "process_line decode conf l s"] Cons.prems
        line_inv_process_line[of s decode conf l] timeout_process_line[of s decode conf l]
        reader_process_line[of decode conf l s]
      by simp
  qed
qed

lemma on_chunk_inv:
  assumes "line_inv s" "timeoutRef s = None \<or> fullResponse s = []"
  shows "line_inv (on_chunk decode conf text s)" "timeoutRef (on_chunk decode conf text s) = None"
    "streamReaderRef (on_chunk decode conf text s) = streamReaderRef s"
proof -
  let ?s2 = "(if timeoutRef s \<noteq> None \<and> fullResponse s = [] then s\<lparr>timeoutRef := None\<rparr> else s)
        \<lparr>buffer := last (split (CHR 0x0A) (buffer s @ text))\<rparr>"
  have c: "on_chunk decode conf text s
        = process_lines decode conf (butlast (split (CHR 0x0A) (buffer s @ text))) ?s2"
    by (simp add: on_chunk_def Let_def)
  have i: "line_inv ?s2" using assms(1) by (simp add: line_inv_def wf_blocks_def finals_def)
  have t: "timeoutRef ?s2 = None" using assms(2) by auto
  have r: "streamReaderRef ?s2 = streamReaderRef s" by simp
  show "line_inv (on_chunk decode conf text s)" "timeoutRef (on_chunk decode conf text s) = None"
    "streamReaderRef (on_chunk decode conf text s) = streamReaderRef s"
    using process_lines_inv[OF i t, of decode conf "butlast (split (CHR 0x0A) (buffer s @ text))"] r
    by (simp_all only: c)
qed

lemma has_content_fields:
  "fullResponse s' = fullResponse s \<Longrightarrow> citations s' = citations s \<Longrightarrow>
   completedBlocks s' = completedBlocks s \<Longrightarrow> streamingBlocks s' = streamingBlocks s \<Longrightarrow>
   has_content s' = has_content s"
  by (simp add: has_content_def)

lemma after_loop_finals:
  assumes "wf_blocks s"
  shows "length (finals (after_loop s)) =
           length (finals s) + (if receivedDoneEvent s then 0
                                else if has_content s then 1
                                else if stopStreamingRef s then 0 else 1)"
proof -
  obtain t where t: "blocksToTextFallback (buildBlocksFromState (completedBlocks s) (streamingBlocks s)) = Inr t"
    using fallback_ok[OF assms] by blast
  show ?thesis
    using t by (simp add: after_loop_def Let_def cancelScheduledUpdate_def emit_def finals_def is_final_def
        has_content_def no_update_def)
qed

lemma after_loop_fields:
  assumes "wf_blocks s"
  shows "streamReaderRef (after_loop s) = streamReaderRef s" "timeoutRef (after_loop s) = None"
    "receivedDoneEvent (after_loop s) = receivedDoneEvent s" "has_content (after_loop s) = has_content s"
proof -
  obtain t where t: "blocksToTextFallback (buildBlocksFromState (completedBlocks s) (streamingBlocks s)) = Inr t"
    using fallback_ok[OF assms] by blast
  show "streamReaderRef (after_loop s) = streamReaderRef s" "timeoutRef (after_loop s) = None"
    "receivedDoneEvent (after_loop s) = receivedDoneEvent s" "has_content (after_loop s) = has_content s"
    using t by (simp_all add: after_loop_def Let_def cancelScheduledUpdate_def emit_def has_content_def)
qed

lemma finally_fields:
  "finals (finally_block s) = finals s" "returned (finally_block s)"
  "receivedDoneEvent (finally_block s) = receivedDoneEvent s" "has_content (finally_block s) = has_content s"
  by (simp_all add: finally_block_def finals_def returned_def has_content_def)

lemma emit_cancel_fields:
  "wf_blocks (emit reader_cancel s) = wf_blocks s" "finals (emit reader_cancel s) = finals s"
  "receivedDoneEvent (emit reader_cancel s) = receivedDoneEvent s"
  "has_content (emit reader_cancel s) = has_content s"
  "stopStreamingRef (emit reader_cancel s) = stopStreamingRef s"
  by (simp_all add: emit_def wf_blocks_def finals_def is_final_def has_content_def)


subsection \<open>One step of a stream that is being read\<close>

lemma reading_initial: "reading initial"
  by (simp add: reading_def line_inv_def wf_blocks_def finals_def initial_def)

lemma reading_finals: "reading s \<Longrightarrow> finals s = []"
  by (auto simp: reading_def line_inv_def)

lemma reading_facts:
  assumes "reading s"
  shows "streamReaderRef s" "\<not> stopStreamingRef s" "wf_blocks s" "\<not> receivedDoneEvent s" "line_inv s"
    "timeoutRef s = None \<or> fullResponse s = []"
  using assms by (auto simp: reading_def line_inv_def initial_def)

lemma step_chunk:
  fixes decode :: "string \<Rightarrow> event option" and conf :: real and chunk :: string and s :: StreamState
  assumes r: "reading s"
  defines "s' \<equiv> step decode conf (Chunk chunk) s"
  shows "streamReaderRef s' \<Longrightarrow> reading s'"
    and "\<not> streamReaderRef s' \<Longrightarrow>
           returned s' \<and> length (finals s') = (if receivedDoneEvent s' then 1 else if has_content s' then 2 else 1)"
proof -
  let ?s1 = "on_chunk decode conf chunk s"
  note f = reading_facts[OF r]
  have i: "line_inv ?s1" and t: "timeoutRef ?s1 = None" and rd: "streamReaderRef ?s1"
    using on_chunk_inv[OF f(5) f(6), of decode conf chunk] f(1) by auto
  have w: "wf_blocks ?s1" using i by (simp add: line_inv_def)
  show "streamReaderRef s' \<Longrightarrow> reading s'"
  proof -
    assume a: "streamReaderRef s'"
    have ns: "\<not> stopStreamingRef ?s1"
    proof
      assume st: "stopStreamingRef ?s1"
      then have "s' = finally_block (after_loop (emit reader_cancel ?s1))"
        using f(1) by (simp add: s'_def step_def Let_def)
      then have "\<not> streamReaderRef s'" using finally_fields(2) by (simp add: returned_def)
      then show False using a by simp
    qed
    then have "s' = ?s1" using f(1) by (simp add: s'_def step_def Let_def)
    then show "reading s'" using i t rd ns by (simp add: reading_def)
  qed
  show "\<not> streamReaderRef s' \<Longrightarrow>
           returned s' \<and> length (finals s') = (if receivedDoneEvent s' then 1 else if has_content s' then 2 else 1)"
  proof -
    assume a: "\<not> streamReaderRef s'"
    have st: "stopStreamingRef ?s1"
    proof (rule ccontr)
      assume "\<not> stopStreamingRef ?s1"
      then have "s' = ?s1" using f(1) by (simp add: s'_def step_def Let_def)
      then show False using a rd by simp
    qed
    let ?s2 = "emit reader_cancel ?s1"
    have e: "s' = finally_block (after_loop ?s2)"
      using st f(1) by (simp add: s'_def step_def Let_def)
    have w2: "wf_blocks ?s2" using w by (simp add: emit_cancel_fields)
    have l1: "length (finals ?s1) = 1" using i st by (simp add: line_inv_def)
    have "length (finals s') = 1 + (if receivedDoneEvent ?s1 then 0 else if has_content ?s1 then 1 else 0)"
      using after_loop_finals[OF w2] l1 st by (simp add: e finally_fields emit_cancel_fields)
    moreover have "receivedDoneEvent s' = receivedDoneEvent ?s1" "has_content s' = has_content ?s1"
      using after_loop_fields[OF w2] by (simp_all add: e finally_fields emit_cancel_fields)
    moreover have "returned s'" by (simp add: e finally_fields)
    ultimately show ?thesis by simp
  qed
qed

lemma step_end:
  assumes r: "reading s"
  shows "returned (step decode conf EndOfStream s)" "length (finals (step decode conf EndOfStream s)) = 1"
proof -
  note f = reading_facts[OF r]
  have e: "step decode conf EndOfStream s = finally_block (after_loop s)" using f(1) by (simp add: step_def)
  show "returned (step decode conf EndOfStream s)" by (simp add: e finally_fields)
  show "length (finals (step decode conf EndOfStream s)) = 1"
    using after_loop_finals[OF f(3)] f(2,4) reading_finals[OF r] by (simp add: e finally_fields)
qed

lemma step_fails:
  assumes r: "reading s"
  shows "returned (step decode conf (ReadFails err) s)" "length (finals (step decode conf (ReadFails err) s)) = 1"
    "calls (step decode conf (ReadFails err) s)
       = calls s @ [onError (catch_message err),
                    onMessageUpdate (no_update\<lparr>u_content := Some (catch_message err), u_streaming := Some False\<rparr>)]"
proof -
  note f = reading_facts[OF r]
  have e: "step decode conf (ReadFails err) s = finally_block (catch_block err s)" using f(1) by (simp add: step_def)
  show "returned (step decode conf (ReadFails err) s)" by (simp add: e finally_fields)
  show c: "calls (step decode conf (ReadFails err) s)
       = calls s @ [onError (catch_message err),
                    onMessageUpdate (no_update\<lparr>u_content := Some (catch_message err), u_streaming := Some False\<rparr>)]"
    by (simp add: e finally_block_def catch_block_def Let_def emit_def)
  show "length (finals (step decode conf (ReadFails err) s)) = 1"
    using reading_finals[OF r] unfolding finals_def c by (simp add: is_final_def no_update_def)
qed

lemma step_stop:
  assumes r: "reading s"
  shows "returned (step decode conf Stop s)"
    "length (finals (step decode conf Stop s)) = (if has_content s then 1 else 0)"
proof -
  note f = reading_facts[OF r]
  let ?s1 = "emit reader_cancel (s\<lparr>stopStreamingRef := True\<rparr>)"
  have e: "step decode conf Stop s = finally_block (after_loop ?s1)" using f(1) by (simp add: step_def)
  have w: "wf_blocks ?s1" using f(3) by (simp add: emit_def wf_blocks_def)
  have p: "finals ?s1 = []" "\<not> receivedDoneEvent ?s1" "stopStreamingRef ?s1" "has_content ?s1 = has_content s"
    using reading_finals[OF r] f(4) by (simp_all add: emit_def finals_def is_final_def has_content_def)
  show "returned (step decode conf Stop s)" by (simp add: e finally_fields)
  show "length (finals (step decode conf Stop s)) = (if has_content s then 1 else 0)"
    using after_loop_finals[OF w] p by (simp add: e finally_fields)
qed

lemma step_timeout_initial:
  "step decode conf Timeout initial =
     initial\<lparr>calls := [reader_cancel,
                        onMessageUpdate (no_update\<lparr>u_content := Some timeoutMsg, u_streaming := Some False\<rparr>),
                        onError timeoutMsg],
              timeoutRef := None, streamReaderRef := False\<rparr>"
  by (simp add: step_def initial_def timeout_callback_def Let_def emit_def after_loop_def
      cancelScheduledUpdate_def buildBlocksFromState_def finally_block_def)

lemma step_timeout:
  assumes r: "reading s"
  shows "timeoutRef s = None \<Longrightarrow> step decode conf Timeout s = s"
    and "timeoutRef s \<noteq> None \<Longrightarrow> returned (step decode conf Timeout s) \<and> length (finals (step decode conf Timeout s)) = 1"
proof -
  show "timeoutRef s = None \<Longrightarrow> step decode conf Timeout s = s" by (simp add: step_def)
  assume "timeoutRef s \<noteq> None"
  then have "s = initial" using r by (simp add: reading_def)
  then show "returned (step decode conf Timeout s) \<and> length (finals (step decode conf Timeout s)) = 1"
    by (simp add: step_timeout_initial returned_def finals_def is_final_def no_update_def)
qed

lemma step_frame:
  assumes r: "reading s"
  shows "reading (step decode conf Frame s)"
proof (cases "rafId s")
  case None
  then show ?thesis using r by (simp add: step_def)
next
  case (Some u)
  note f = reading_facts[OF r]
  obtain t where t: "blocksToTextFallback (buildBlocksFromState (completedBlocks s) (streamingBlocks s)) = Inr t"
    using fallback_ok[OF f(3)] by blast
  have ni: "s \<noteq> initial" using Some by (auto simp: initial_def)
  then have tn: "timeoutRef s = None" using r by (auto simp: reading_def)
  have "step decode conf Frame s = frame_callback s" using Some by (simp add: step_def)
  then show ?thesis
    using t r tn by (auto simp: frame_callback_def Let_def emit_def reading_def line_inv_def wf_blocks_def
        finals_def is_final_def no_update_def)
qed

lemma returned_step:
  assumes "returned s"
  shows "returned (step decode conf i s)" "finals (step decode conf i s) = finals s"
proof -
  have "returned (step decode conf i s) \<and> finals (step decode conf i s) = finals s"
  proof (cases i)
    case Frame
    then show ?thesis
      using assms
      by (auto simp: step_def returned_def finals_def frame_callback_def Let_def emit_def is_final_def
          no_update_def split: sum.splits)
  qed (use assms in \<open>auto simp: step_def returned_def finals_def\<close>)
  then show "returned (step decode conf i s)" "finals (step decode conf i s) = finals s" by auto
qed

lemma reading_or_returned_step:
  "reading s \<or> returned s \<Longrightarrow> reading (step decode conf i s) \<or> returned (step decode conf i s)"
proof (erule disjE)
  assume r: "reading s"
  show ?thesis
  proof (cases i)
    case (Chunk c)
    then show ?thesis using step_chunk[OF r, where decode = decode and conf = conf and chunk = c] by auto
  next
    case EndOfStream
    then show ?thesis using step_end(1)[OF r] by simp
  next
    case (ReadFails err)
    then show ?thesis using step_fails(1)[OF r] by simp
  next
    case Frame
    then show ?thesis using step_frame[OF r] by simp
  next
    case Timeout
    then show ?thesis using step_timeout[OF r, of decode conf] r by (cases "timeoutRef s") auto
  next
    case Stop
    then show ?thesis using step_stop(1)[OF r] by simp
  qed
next
  assume "returned s"
  then show ?thesis using returned_step(1) by blast
qed

lemma reading_or_returned_run:
  "reading s \<or> returned s \<Longrightarrow> reading (run decode conf ins s) \<or> returned (run decode conf ins s)"
proof (induction ins arbitrary: s)
  case Nil
  then show ?case by simp
next
  case (Cons i ins)
  show ?case using Cons.IH[OF reading_or_returned_step[OF Cons.prems]] by simp
qed


lemma reachable:
  "reading (run decode conf ins initial) \<or> returned (run decode conf ins initial)"
  using reading_or_returned_run[of initial] reading_initial by blast



subsection \<open>From the lines of a chunk to the events\<close>

text \<open>
  The loop over the lines of a chunk handles the block events that its lines decode to,
  one after the other; the scenario of the text block, sent as one chunk, gives the
  completed block of the specification.
\<close>

lemma block_event_stop:
  "is_block_event ev \<Longrightarrow> stopStreamingRef (handle_event conf ev s) = stopStreamingRef s"
  by (cases ev) (simp_all add: is_block_event_def handle_event_def on_block_start_fields
      on_block_delta_fields on_block_end_fields)

lemma process_lines_block_events:
  "list_all2 (\<lambda>l ev. startsWith l ''data: '' \<and> decode (drop 6 l) = Some ev \<and> is_block_event ev) ls evs \<Longrightarrow>
   \<not> stopStreamingRef s \<Longrightarrow>
   process_lines decode conf ls s = handle_events conf evs s"
proof (induction ls evs arbitrary: s rule: list_all2_induct)
  case Nil
  then show ?case by simp
next
  case (Cons l ls ev evs)
  have p: "process_line decode conf l s = handle_event conf ev s"
    using Cons.hyps(1) by (simp add: process_line_def)
  have n: "\<not> stopStreamingRef (handle_event conf ev s)"
    using Cons.hyps(1) Cons.prems block_event_stop by simp
  show ?case using Cons.IH[OF n] Cons.prems p by simp
qed

lemma lines_of_chunk:
  \<open>split (CHR 0x0A) chunk_text_block =
     [''data: {"type":"block_start","block_id":"b1","block_type":"text"}'',
      ''data: {"type":"block_delta","block_id":"b1","path":"content","value":"Hi "}'',
      ''data: {"type":"block_delta","block_id":"b1","path":"content","value":"there"}'',
      ''data: {"type":"block_end","block_id":"b1","partial":false}'', []]\<close>
  by (simp add: chunk_text_block_def newline_def)

lemma chunk_text_block_events:
  "step sample_decode 0 (Chunk chunk_text_block) initial
   = handle_events 0
       [Block_start ''b1'' (Some ''text''), Block_delta ''b1'' ''content'' ''Hi '',
        Block_delta ''b1'' ''content'' ''there'', Block_end ''b1'' (Some False)]
       (initial\<lparr>timeoutRef := None, buffer := []\<rparr>)"
proof -
  let ?evs = "[Block_start ''b1'' (Some ''text''), Block_delta ''b1'' ''content'' ''Hi '',
         Block_delta ''b1'' ''content'' ''there'', Block_end ''b1'' (Some False)]"
  let ?ls = \<open>[''data: {"type":"block_start","block_id":"b1","block_type":"text"}'',
      ''data: {"type":"block_delta","block_id":"b1","path":"content","value":"Hi "}'',
      ''data: {"type":"block_delta","block_id":"b1","path":"content","value":"there"}'',
      ''data: {"type":"block_end","block_id":"b1","partial":false}'']\<close>
  let ?s0 = "initial\<lparr>timeoutRef := None, buffer := []\<rparr>"
  have t: "(if timeoutRef initial \<noteq> None \<and> fullResponse initial = [] then initial\<lparr>timeoutRef := None\<rparr> else initial)
         = initial\<lparr>timeoutRef := None\<rparr>"
    by (simp add: initial_def)
  have b: "buffer (initial\<lparr>timeoutRef := None\<rparr>) @ chunk_text_block = chunk_text_block"
    by (simp add: initial_def)
  have sp: "split (CHR 0x0A) chunk_text_block = ?ls @ [[]]"
    by (simp add: lines_of_chunk)
  have bl: "butlast (?ls @ [[]]) = ?ls" "last (?ls @ [[]]) = []"
    by (simp_all only: butlast_snoc last_snoc)
  have n0: "\<not> stopStreamingRef ?s0" by (simp add: initial_def)
  have l: "list_all2 (\<lambda>l ev. startsWith l ''data: '' \<and> sample_decode (drop 6 l) = Some ev \<and> is_block_event ev) ?ls ?evs"
    by (simp add: startsWith_def sample_decode_def is_block_event_def)
  have o: "on_chunk sample_decode 0 chunk_text_block initial = handle_events 0 ?evs ?s0"
    unfolding on_chunk_def Let_def t b sp bl
    by (rule process_lines_block_events[OF l n0])
  have n: "\<not> stopStreamingRef (handle_events 0 ?evs ?s0)"
    using n0 by (simp add: block_event_stop is_block_event_def)
  have r: "streamReaderRef initial" by (simp add: initial_def)
  show ?thesis
    using n r by (simp add: step_def Let_def o)
qed

lemma text_scenario_on_the_wire:
  "completedBlocks (run sample_decode 0 [Chunk chunk_text_block] initial)
   = [\<lparr>ctype = ''text'', cdata = [''id'' \<mapsto> VStr ''b1'', ''content'' \<mapsto> VStr ''Hi there'']\<rparr>]"
proof -
  let ?evs = "[Block_start ''b1'' (Some ''text''), Block_delta ''b1'' ''content'' ''Hi '',
         Block_delta ''b1'' ''content'' ''there'', Block_end ''b1'' (Some False)]"
  let ?s0 = "initial\<lparr>timeoutRef := None, buffer := []\<rparr>"
  have "completedBlocks (run sample_decode 0 [Chunk chunk_text_block] initial)
      = completedBlocks (handle_events 0 ?evs ?s0)"
    by (simp add: chunk_text_block_events)
  also have "\<dots> = completedBlocks ?s0 @
       [\<lparr>ctype = or_string (Some ''text'') ''text'',
         cdata = [''id'' \<mapsto> VStr ''b1'', ''content'' \<mapsto> VStr (concat [''Hi '', ''there''])]\<rparr>]"
    using text_block_lifecycle(1)[where path = "''content''" and vs = "[''Hi '', ''there'']" and conf = 0
      and b = "''b1''" and ty = "Some ''text''" and p = "Some False" and s = ?s0]
    by (simp add: ordinary_path_def)
  finally show ?thesis by (simp add: initial_def or_string_def)
qed

text \<open>
  The states of that stream: after the chunk of the text block, and after a further
  chunk whose \<^verbatim>\<open>block_delta\<close> names the id of the block just completed.
\<close>

lemma chunk_text_block_initial:
  "step sample_decode 0 (Chunk chunk_text_block) initial
   = initial\<lparr>timeoutRef := None, completedBlocks := [hi_there], pendingUpdate := True, rafId := Some ()\<rparr>"
  unfolding chunk_text_block_events
  by (simp add: handle_event_def on_block_start_def on_block_delta_def on_block_end_def or_string_def
      initial_def scheduleUpdate_def stateToContentBlock_def new_block_def applyBlockDelta_def Let_def hi_there_def)

lemma chunk_delta_after_text_block:
  "step sample_decode 0 (Chunk chunk_delta)
     (initial\<lparr>timeoutRef := None, completedBlocks := [hi_there], pendingUpdate := True, rafId := Some ()\<rparr>)
   = initial\<lparr>timeoutRef := None, completedBlocks := [hi_there], pendingUpdate := True, rafId := Some (),
              streamingBlocks := [(''b1'', hi_open)]\<rparr>"
  by (simp add: step_def on_chunk_def chunk_delta_def newline_def initial_def Let_def process_line_def
      startsWith_def sample_decode_def handle_event_def on_block_delta_def new_block_def applyBlockDelta_def
      scheduleUpdate_def hi_open_def)

lemma reopened:
  "run sample_decode 0 [Chunk chunk_text_block, Chunk chunk_delta] initial
   = initial\<lparr>timeoutRef := None, completedBlocks := [hi_there], pendingUpdate := True, rafId := Some (),
              streamingBlocks := [(''b1'', hi_open)]\<rparr>"
  by (simp add: chunk_text_block_initial chunk_delta_after_text_block)

lemma stateToContentBlock_hi_open: "stateToContentBlock hi_open = hi"
  by (simp add: stateToContentBlock_def hi_open_def hi_def)

lemma text_hi_there: "blocksToTextFallback [hi_there] = Inr ''Hi there''"
  by (simp add: blocksToTextFallback_def block_text_def hi_there_def or_empty_def)

lemma reopened_text:
  "blocksToTextFallback [hi_there, hi] = Inr (''Hi there'' @ newline @ newline @ ''Hi '')"
  by (simp add: blocksToTextFallback_def block_text_def hi_there_def hi_def or_empty_def newline_def)


subsection \<open>Timeout, failure and the last snapshots\<close>

lemma message_after_append:
  "message_after m (xs @ ys) = message_after (message_after m xs) ys"
  by (induction m xs rule: message_after.induct) auto

lemma chunk_block_start_initial:
  "step sample_decode 0 (Chunk chunk_block_start) initial
   = initial\<lparr>timeoutRef := None, streamingBlocks := [(''b1'', new_block ''b1'' ''text'')],
              pendingUpdate := True, rafId := Some ()\<rparr>"
  by (simp add: step_def on_chunk_def chunk_block_start_def newline_def initial_def Let_def process_line_def
      startsWith_def sample_decode_def handle_event_def on_block_start_def or_string_def scheduleUpdate_def)

lemma chunk_response_initial:
  "step sample_decode 0 (Chunk chunk_response) initial
   = initial\<lparr>timeoutRef := None, fullResponse := ''Hello'',
              calls := [onMessageUpdate (no_update\<lparr>u_content := Some ''Hello'', u_streaming := Some True\<rparr>)]\<rparr>"
  by (simp add: step_def on_chunk_def chunk_response_def newline_def initial_def Let_def process_line_def
      startsWith_def sample_decode_def handle_event_def emit_def)



text \<open>
  Claim C5 as stated fails. Once a first chunk has opened the block \<^verbatim>\<open>b1\<close>, no timer
  is set: a timer callback cannot run, the stream is still being read, the block is
  still open and nothing has been delivered or cancelled.
\<close>

theorem no_timeout_after_first_chunk_counterexample:
  "timeoutRef (run sample_decode 0 [Chunk chunk_block_start] initial) = None
   \<and> streamReaderRef (run sample_decode 0 [Chunk chunk_block_start, Timeout] initial)
   \<and> run sample_decode 0 [Chunk chunk_block_start, Timeout] initial
       = run sample_decode 0 [Chunk chunk_block_start] initial
   \<and> map_of (streamingBlocks (run sample_decode 0 [Chunk chunk_block_start, Timeout] initial)) ''b1''
       = Some (new_block ''b1'' ''text'')
   \<and> completedBlocks (run sample_decode 0 [Chunk chunk_block_start, Timeout] initial) = []
   \<and> calls (run sample_decode 0 [Chunk chunk_block_start, Timeout] initial) = []"
proof -
  let ?s = "initial\<lparr>timeoutRef := None, streamingBlocks := [(''b1'', new_block ''b1'' ''text'')],
              pendingUpdate := True, rafId := Some ()\<rparr>"
  have a: "run sample_decode 0 [Chunk chunk_block_start] initial = ?s"
    by (simp add: chunk_block_start_initial)
  have t: "step sample_decode 0 Timeout ?s = ?s" by (simp add: step_def)
  have b: "run sample_decode 0 [Chunk chunk_block_start, Timeout] initial = ?s"
    using t by (simp add: chunk_block_start_initial)
  show ?thesis unfolding a b by (simp add: initial_def)
qed

lemma chunk_clears_timer:
  "timeoutRef (step decode conf (Chunk chunk) initial) = None"
proof -
  have l: "line_inv initial" using reading_initial by (simp add: reading_def)
  have f: "timeoutRef initial = None \<or> fullResponse initial = []" by (simp add: initial_def)
  have t: "timeoutRef (on_chunk decode conf chunk initial) = None"
    using on_chunk_inv(2)[OF l f] by simp
  have w: "wf_blocks (emit reader_cancel (on_chunk decode conf chunk initial))"
    using on_chunk_inv(1)[OF l f, of decode conf chunk] by (simp add: line_inv_def emit_cancel_fields)
  show ?thesis
    using t finally_fields(2)[of "after_loop (emit reader_cancel (on_chunk decode conf chunk initial))"]
    by (simp add: step_def Let_def initial_def returned_def)
qed

text \<open>
  Claim C5 as amended. One timer is set, with the delay \<^verbatim>\<open>STREAM_TIMEOUT\<close>. In every
  state that a stream reaches, the timer is set only if nothing has happened yet, and
  when it is not set a timer callback changes nothing; the first chunk clears it. When
  it expires, in the initial state, the read is cancelled, one snapshot with the
  timeout message and \<^verbatim>\<open>streaming: false\<close> is delivered, the error is reported and
  the stream has returned; no block exists then, and none is closed.
\<close>

theorem single_first_chunk_timeout:
  "s = run decode conf ins initial \<Longrightarrow>
   timeoutRef initial = Some STREAM_TIMEOUT
   \<and> (timeoutRef s \<noteq> None \<longrightarrow> s = initial)
   \<and> (timeoutRef s = None \<longrightarrow> step decode conf Timeout s = s)
   \<and> timeoutRef (step decode conf (Chunk chunk) initial) = None
   \<and> step decode conf Timeout initial =
       initial\<lparr>calls := [reader_cancel,
                          onMessageUpdate (no_update\<lparr>u_content := Some timeoutMsg, u_streaming := Some False\<rparr>),
                          onError timeoutMsg],
                timeoutRef := None, streamReaderRef := False\<rparr>"
proof -
  assume s: "s = run decode conf ins initial"
  have a: "timeoutRef s \<noteq> None \<longrightarrow> s = initial"
    using reachable[of decode conf ins] by (auto simp: s reading_def returned_def)
  have b: "timeoutRef s = None \<longrightarrow> step decode conf Timeout s = s" by (simp add: step_def)
  show ?thesis
    using a b chunk_clears_timer[of decode conf chunk] step_timeout_initial[of decode conf]
    by (simp add: initial_def)
qed

theorem single_first_chunk_timeout_witness:
  "timeoutRef (run sample_decode 0 [Chunk chunk_block_start] initial) = None
   \<and> step sample_decode 0 Timeout (run sample_decode 0 [Chunk chunk_block_start] initial)
       = run sample_decode 0 [Chunk chunk_block_start] initial
   \<and> calls (step sample_decode 0 Timeout initial)
       = [reader_cancel,
          onMessageUpdate (no_update\<lparr>u_content := Some timeoutMsg, u_streaming := Some False\<rparr>),
          onError timeoutMsg]"
proof -
  have t: "timeoutRef (run sample_decode 0 [Chunk chunk_block_start] initial) = None"
    by (simp add: chunk_block_start_initial)
  show ?thesis
    using single_first_chunk_timeout[OF refl, where decode = sample_decode and conf = 0
        and ins = "[Chunk chunk_block_start]" and chunk = chunk_block_start] t
    by simp
qed



text \<open>
  What the error branch delivers, in any state: the last response text when there is
  one, the error message otherwise, and then the error to \<^verbatim>\<open>onError\<close>.
\<close>

lemma on_error_calls:
  "calls (on_error e d m s) = calls s @
     [onMessageUpdate (no_update\<lparr>u_content := Some (if fullResponse s \<noteq> [] then fullResponse s else error_message e d m),
                                 u_streaming := Some False\<rparr>),
      onError (error_message e d m)]"
  by (simp add: on_error_def Let_def cancelScheduledUpdate_def emit_def)

lemma run_append: "run decode conf (xs @ ys) s = run decode conf ys (run decode conf xs s)"
  by (induction xs arbitrary: s) auto

text \<open>
  Once \<^verbatim>\<open>streamQuery\<close> has returned with no timer set and no frame callback
  registered, nothing changes the state any more.
\<close>

lemma quiet_step:
  "\<not> streamReaderRef s \<Longrightarrow> timeoutRef s = None \<Longrightarrow> rafId s = None \<Longrightarrow> step decode conf i s = s"
  by (cases i) (simp_all add: step_def)

lemma quiet_run:
  "\<not> streamReaderRef s \<Longrightarrow> timeoutRef s = None \<Longrightarrow> rafId s = None \<Longrightarrow> run decode conf ins s = s"
  by (induction ins) (simp_all add: quiet_step)

lemma catch_message_network_error: "catch_message network_error = ''network error''"
  by (simp add: catch_message_def network_error_def startsWith_def)

lemma read_fails_after_response:
  "step sample_decode 0 (ReadFails network_error)
     (initial\<lparr>timeoutRef := None, fullResponse := ''Hello'',
              calls := [onMessageUpdate (no_update\<lparr>u_content := Some ''Hello'', u_streaming := Some True\<rparr>)]\<rparr>)
   = initial\<lparr>timeoutRef := None, fullResponse := ''Hello'', streamReaderRef := False,
              calls := [onMessageUpdate (no_update\<lparr>u_content := Some ''Hello'', u_streaming := Some True\<rparr>),
                        onError ''network error'',
                        onMessageUpdate (no_update\<lparr>u_content := Some ''network error'', u_streaming := Some False\<rparr>)]\<rparr>"
  by (simp add: step_def catch_block_def finally_block_def emit_def Let_def
      catch_message_network_error initial_def)

lemma error_event_after_response:
  "step sample_decode 0 (Chunk chunk_error)
     (initial\<lparr>timeoutRef := None, fullResponse := ''Hello'',
              calls := [onMessageUpdate (no_update\<lparr>u_content := Some ''Hello'', u_streaming := Some True\<rparr>)]\<rparr>)
   = initial\<lparr>timeoutRef := None, fullResponse := ''Hello'', streamReaderRef := False,
              calls := [onMessageUpdate (no_update\<lparr>u_content := Some ''Hello'', u_streaming := Some True\<rparr>),
                        onMessageUpdate (no_update\<lparr>u_content := Some ''Hello'', u_streaming := Some False\<rparr>),
                        onError ''upstream failed'',
                        reader_cancel,
                        onMessageUpdate \<lparr>u_content = Some ''Hello'', u_blocks = Some None, u_citations = Some [],
                                         u_streaming = Some False, u_confidence = None\<rparr>]\<rparr>"
  by (simp add: step_def on_chunk_def chunk_error_def newline_def initial_def Let_def
      process_line_def startsWith_def sample_decode_def handle_event_def emit_def on_error_def error_message_def
      or_string_def cancelScheduledUpdate_def after_loop_def finally_block_def buildBlocksFromState_def
      blocksToTextFallback_def)

lemma end_after_response:
  "step sample_decode 0 EndOfStream
     (initial\<lparr>timeoutRef := None, fullResponse := ''Hello'',
              calls := [onMessageUpdate (no_update\<lparr>u_content := Some ''Hello'', u_streaming := Some True\<rparr>)]\<rparr>)
   = initial\<lparr>timeoutRef := None, fullResponse := ''Hello'', streamReaderRef := False,
              calls := [onMessageUpdate (no_update\<lparr>u_content := Some ''Hello'', u_streaming := Some True\<rparr>),
                        onMessageUpdate \<lparr>u_content = Some ''Hello'', u_blocks = Some None, u_citations = Some [],
                                         u_streaming = Some False, u_confidence = None\<rparr>]\<rparr>"
  by (simp add: step_def initial_def Let_def emit_def
      cancelScheduledUpdate_def after_loop_def finally_block_def buildBlocksFromState_def
      blocksToTextFallback_def)

lemma response_then_read_fails:
  "run sample_decode 0 [Chunk chunk_response, ReadFails network_error] initial
   = initial\<lparr>timeoutRef := None, fullResponse := ''Hello'', streamReaderRef := False,
              calls := [onMessageUpdate (no_update\<lparr>u_content := Some ''Hello'', u_streaming := Some True\<rparr>),
                        onError ''network error'',
                        onMessageUpdate (no_update\<lparr>u_content := Some ''network error'', u_streaming := Some False\<rparr>)]\<rparr>"
  by (simp only: run.simps chunk_response_initial read_fails_after_response)

lemma response_then_error_event:
  "run sample_decode 0 [Chunk chunk_response, Chunk chunk_error] initial
   = initial\<lparr>timeoutRef := None, fullResponse := ''Hello'', streamReaderRef := False,
              calls := [onMessageUpdate (no_update\<lparr>u_content := Some ''Hello'', u_streaming := Some True\<rparr>),
                        onMessageUpdate (no_update\<lparr>u_content := Some ''Hello'', u_streaming := Some False\<rparr>),
                        onError ''upstream failed'',
                        reader_cancel,
                        onMessageUpdate \<lparr>u_content = Some ''Hello'', u_blocks = Some None, u_citations = Some [],
                                         u_streaming = Some False, u_confidence = None\<rparr>]\<rparr>"
  by (simp only: run.simps chunk_response_initial error_event_after_response)

lemma response_then_end:
  "run sample_decode 0 [Chunk chunk_response, EndOfStream] initial
   = initial\<lparr>timeoutRef := None, fullResponse := ''Hello'', streamReaderRef := False,
              calls := [onMessageUpdate (no_update\<lparr>u_content := Some ''Hello'', u_streaming := Some True\<rparr>),
                        onMessageUpdate \<lparr>u_content = Some ''Hello'', u_blocks = Some None, u_citations = Some [],
                                         u_streaming = Some False, u_confidence = None\<rparr>]\<rparr>"
  by (simp only: run.simps chunk_response_initial end_after_response)

text \<open>
  Claim C6, at the input where the source departs from it. The response text
  \<^verbatim>\<open>Hello\<close> has been delivered and is the content of the message that the caller
  keeps. A read that then fails is handled by the \<^verbatim>\<open>catch\<close> block, which delivers
  its error message as the content: the text delivered before is in no field of the
  message any more, and whatever happens afterwards leaves the message so. On the same
  stream the two other ways to fail keep the text: after an upstream error event, and
  after the end of the transport without a \<^verbatim>\<open>done\<close> event, the content of the
  message is still \<^verbatim>\<open>Hello\<close>, whatever happens afterwards.
\<close>

theorem read_failure_drops_content:
  "m_content (message_after empty_message (calls (run sample_decode 0 [Chunk chunk_response] initial))) = ''Hello''
   \<and> message_after empty_message
        (calls (run sample_decode 0 ([Chunk chunk_response, ReadFails network_error] @ later) initial))
       = \<lparr>m_content = ''network error'', m_blocks = None, m_citations = None, m_streaming = Some False,
          m_confidence = None\<rparr>
   \<and> m_content (message_after empty_message
        (calls (run sample_decode 0 ([Chunk chunk_response, Chunk chunk_error] @ later) initial))) = ''Hello''
   \<and> m_content (message_after empty_message
        (calls (run sample_decode 0 ([Chunk chunk_response, EndOfStream] @ later) initial))) = ''Hello''"
proof -
  let ?u = "onMessageUpdate (no_update\<lparr>u_content := Some ''Hello'', u_streaming := Some True\<rparr>)"
  have a0: "run sample_decode 0 [Chunk chunk_response] initial
      = initial\<lparr>timeoutRef := None, fullResponse := ''Hello'', calls := [?u]\<rparr>"
    by (simp only: run.simps chunk_response_initial)
  have a: "calls (run sample_decode 0 [Chunk chunk_response] initial) = [?u]"
    unfolding a0 by simp
  have q: "run sample_decode 0 (ins @ later) initial = run sample_decode 0 ins initial"
    if "\<not> streamReaderRef (run sample_decode 0 ins initial)" "timeoutRef (run sample_decode 0 ins initial) = None"
      "rafId (run sample_decode 0 ins initial) = None" for ins
    unfolding run_append using that by (rule quiet_run)
  have f: "run sample_decode 0 ([Chunk chunk_response, ReadFails network_error] @ later) initial
        = run sample_decode 0 [Chunk chunk_response, ReadFails network_error] initial"
    by (rule q; unfold response_then_read_fails; simp add: initial_def)
  have e: "run sample_decode 0 ([Chunk chunk_response, Chunk chunk_error] @ later) initial
        = run sample_decode 0 [Chunk chunk_response, Chunk chunk_error] initial"
    by (rule q; unfold response_then_error_event; simp add: initial_def)
  have d: "run sample_decode 0 ([Chunk chunk_response, EndOfStream] @ later) initial
        = run sample_decode 0 [Chunk chunk_response, EndOfStream] initial"
    by (rule q; unfold response_then_end; simp add: initial_def)
  show ?thesis
    unfolding a f e d response_then_read_fails response_then_error_event response_then_end
    by (simp add: empty_message_def merge_update_def no_update_def)
qed

text \<open>
  The \<^verbatim>\<open>catch\<close> block does not cancel a registered frame callback either, which
  the error branch and the code after the loop both do. After the chunk of the text
  block a frame callback is registered; when the read then fails and the callback runs,
  its snapshot with \<^verbatim>\<open>streaming: true\<close> comes after the one of the failure, and the
  message is left as that of a stream still in progress.
\<close>

lemma read_fails_after_text_block:
  "step sample_decode 0 (ReadFails network_error)
     (initial\<lparr>timeoutRef := None, completedBlocks := [hi_there], pendingUpdate := True, rafId := Some ()\<rparr>)
   = initial\<lparr>timeoutRef := None, completedBlocks := [hi_there], pendingUpdate := True, rafId := Some (),
              streamReaderRef := False,
              calls := [onError ''network error'',
                        onMessageUpdate (no_update\<lparr>u_content := Some ''network error'', u_streaming := Some False\<rparr>)]\<rparr>"
  by (simp add: step_def catch_block_def finally_block_def emit_def Let_def
      catch_message_network_error initial_def)

lemma frame_after_failed_read:
  "step sample_decode 0 Frame
     (initial\<lparr>timeoutRef := None, completedBlocks := [hi_there], pendingUpdate := True, rafId := Some (),
              streamReaderRef := False,
              calls := [onError ''network error'',
                        onMessageUpdate (no_update\<lparr>u_content := Some ''network error'', u_streaming := Some False\<rparr>)]\<rparr>)
   = initial\<lparr>timeoutRef := None, completedBlocks := [hi_there], fullResponse := ''Hi there'',
              streamReaderRef := False,
              calls := [onError ''network error'',
                        onMessageUpdate (no_update\<lparr>u_content := Some ''network error'', u_streaming := Some False\<rparr>),
                        onMessageUpdate (no_update\<lparr>u_content := Some ''Hi there'', u_blocks := Some (Some [hi_there]),
                                                   u_streaming := Some True\<rparr>)]\<rparr>"
  by (simp add: step_def frame_callback_def buildBlocksFromState_def text_hi_there emit_def Let_def initial_def)

lemma pending_frame_survives_read_failure:
  "message_after empty_message
     (calls (run sample_decode 0 ([Chunk chunk_text_block, ReadFails network_error, Frame] @ later) initial))
   = \<lparr>m_content = ''Hi there'', m_blocks = Some [hi_there], m_citations = None, m_streaming = Some True,
      m_confidence = None\<rparr>"
proof -
  have a: "run sample_decode 0 [Chunk chunk_text_block, ReadFails network_error, Frame] initial
     = initial\<lparr>timeoutRef := None, completedBlocks := [hi_there], fullResponse := ''Hi there'',
              streamReaderRef := False,
              calls := [onError ''network error'',
                        onMessageUpdate (no_update\<lparr>u_content := Some ''network error'', u_streaming := Some False\<rparr>),
                        onMessageUpdate (no_update\<lparr>u_content := Some ''Hi there'', u_blocks := Some (Some [hi_there]),
                                                   u_streaming := Some True\<rparr>)]\<rparr>"
    by (simp only: run.simps chunk_text_block_initial read_fails_after_text_block frame_after_failed_read)
  have q: "run sample_decode 0 ([Chunk chunk_text_block, ReadFails network_error, Frame] @ later) initial
     = run sample_decode 0 [Chunk chunk_text_block, ReadFails network_error, Frame] initial"
    unfolding run_append by (rule quiet_run; unfold a; simp add: initial_def)
  show ?thesis
    unfolding q a by (simp add: empty_message_def merge_update_def no_update_def)
qed

text \<open>
  Where blocks have been received as well, the code after the loop delivers the text of
  the blocks in preference to the response text, as a frame callback does: after the
  text block, the response text \<^verbatim>\<open>Hello\<close> and an upstream error event, the content
  of the message is the text of the block, and the message has the block.
\<close>

lemma response_after_text_block:
  "step sample_decode 0 (Chunk chunk_response)
     (initial\<lparr>timeoutRef := None, completedBlocks := [hi_there], pendingUpdate := True, rafId := Some ()\<rparr>)
   = initial\<lparr>timeoutRef := None, completedBlocks := [hi_there], pendingUpdate := True, rafId := Some (),
              fullResponse := ''Hello'',
              calls := [onMessageUpdate (no_update\<lparr>u_content := Some ''Hello'', u_streaming := Some True\<rparr>)]\<rparr>"
  by (simp add: step_def on_chunk_def chunk_response_def newline_def initial_def Let_def process_line_def
      startsWith_def sample_decode_def handle_event_def emit_def)

lemma error_event_after_block_and_response:
  "step sample_decode 0 (Chunk chunk_error)
     (initial\<lparr>timeoutRef := None, completedBlocks := [hi_there], pendingUpdate := True, rafId := Some (),
              fullResponse := ''Hello'',
              calls := [onMessageUpdate (no_update\<lparr>u_content := Some ''Hello'', u_streaming := Some True\<rparr>)]\<rparr>)
   = initial\<lparr>timeoutRef := None, completedBlocks := [hi_there], fullResponse := ''Hello'',
              streamReaderRef := False,
              calls := [onMessageUpdate (no_update\<lparr>u_content := Some ''Hello'', u_streaming := Some True\<rparr>),
                        onMessageUpdate (no_update\<lparr>u_content := Some ''Hello'', u_streaming := Some False\<rparr>),
                        onError ''upstream failed'',
                        reader_cancel,
                        onMessageUpdate \<lparr>u_content = Some ''Hi there'', u_blocks = Some (Some [hi_there]),
                                         u_citations = Some [], u_streaming = Some False, u_confidence = None\<rparr>]\<rparr>"
  by (simp add: step_def on_chunk_def chunk_error_def newline_def initial_def Let_def
      process_line_def startsWith_def sample_decode_def handle_event_def emit_def on_error_def error_message_def
      or_string_def cancelScheduledUpdate_def after_loop_def finally_block_def buildBlocksFromState_def
      text_hi_there)

lemma error_event_prefers_block_text:
  "message_after empty_message
     (calls (run sample_decode 0 ([Chunk chunk_text_block, Chunk chunk_response, Chunk chunk_error] @ later) initial))
   = \<lparr>m_content = ''Hi there'', m_blocks = Some [hi_there], m_citations = Some [], m_streaming = Some False,
      m_confidence = None\<rparr>"
proof -
  have a: "run sample_decode 0 [Chunk chunk_text_block, Chunk chunk_response, Chunk chunk_error] initial
     = initial\<lparr>timeoutRef := None, completedBlocks := [hi_there], fullResponse := ''Hello'',
              streamReaderRef := False,
              calls := [onMessageUpdate (no_update\<lparr>u_content := Some ''Hello'', u_streaming := Some True\<rparr>),
                        onMessageUpdate (no_update\<lparr>u_content := Some ''Hello'', u_streaming := Some False\<rparr>),
                        onError ''upstream failed'',
                        reader_cancel,
                        onMessageUpdate \<lparr>u_content = Some ''Hi there'', u_blocks = Some (Some [hi_there]),
                                         u_citations = Some [], u_streaming = Some False, u_confidence = None\<rparr>]\<rparr>"
    by (simp only: run.simps chunk_text_block_initial response_after_text_block error_event_after_block_and_response)
  have q: "run sample_decode 0 ([Chunk chunk_text_block, Chunk chunk_response, Chunk chunk_error] @ later) initial
     = run sample_decode 0 [Chunk chunk_text_block, Chunk chunk_response, Chunk chunk_error] initial"
    unfolding run_append by (rule quiet_run; unfold a; simp add: initial_def)
  show ?thesis
    unfolding q a by (simp add: empty_message_def merge_update_def no_update_def)
qed

lemma frame_callback_calls:
  "blocksToTextFallback (buildBlocksFromState (completedBlocks s) (streamingBlocks s)) = Inr t \<Longrightarrow>
   calls (frame_callback s) = calls s @
     [onMessageUpdate (no_update\<lparr>u_content := Some t,
        u_blocks := Some (Some (completedBlocks s @ map (\<lambda>kv. stateToContentBlock (snd kv)) (streamingBlocks s))),
        u_streaming := Some True\<rparr>)]"
  by (simp add: frame_callback_def Let_def emit_def buildBlocksFromState_def)

lemma on_done_snapshot:
  "blocksToTextFallback (buildBlocksFromState (completedBlocks s) (streamingBlocks s)) = Inr t \<Longrightarrow>
   last (calls (on_done conf m c s)) =
     onMessageUpdate
       \<lparr>u_content = Some (if t \<noteq> [] then t else if fullResponse s \<noteq> [] then fullResponse s
                           else ''No response received.''),
        u_blocks = Some (if completedBlocks s @ map (\<lambda>kv. stateToContentBlock (snd kv)) (streamingBlocks s) \<noteq> []
                         then Some (completedBlocks s @ map (\<lambda>kv. stateToContentBlock (snd kv)) (streamingBlocks s))
                         else None),
        u_citations = Some (citations s),
        u_streaming = Some False,
        u_confidence = Some (case c of Some x \<Rightarrow> x | None \<Rightarrow> conf)\<rparr>"
  by (simp add: on_done_def Let_def cancelScheduledUpdate_def emit_def buildBlocksFromState_def
      split: option.splits)

lemma after_loop_snapshot:
  "blocksToTextFallback (buildBlocksFromState (completedBlocks s) (streamingBlocks s)) = Inr t \<Longrightarrow>
   \<not> receivedDoneEvent s \<Longrightarrow> has_content s \<Longrightarrow>
   calls (after_loop s) = calls s @
     [onMessageUpdate
       \<lparr>u_content = Some (if t \<noteq> [] then t else if fullResponse s \<noteq> [] then fullResponse s
                           else ''Response stream ended unexpectedly.''),
        u_blocks = Some (if completedBlocks s @ map (\<lambda>kv. stateToContentBlock (snd kv)) (streamingBlocks s) \<noteq> []
                         then Some (completedBlocks s @ map (\<lambda>kv. stateToContentBlock (snd kv)) (streamingBlocks s))
                         else None),
        u_citations = Some (citations s),
        u_streaming = Some False,
        u_confidence = None\<rparr>]"
  by (simp add: after_loop_def Let_def cancelScheduledUpdate_def emit_def buildBlocksFromState_def has_content_def)

text \<open>
  Claim C10. Whatever happens to a stream, the completed blocks it had stay where they
  are, unchanged, at the front of the completed blocks. A \<^verbatim>\<open>block_end\<close> for an open
  block appends its content block and removes the id from the open blocks; a
  \<^verbatim>\<open>block_delta\<close> for an id that is not open, be it the id of a block completed
  before, applies the delta to a new block of type \<^verbatim>\<open>text\<close> with empty data, added
  after the open blocks, and leaves the completed blocks as they are. Each of the three
  snapshots that carry blocks, that of a frame, that of the \<^verbatim>\<open>done\<close> event and that
  of the code after the loop, lists the completed blocks first and the open blocks after
  them, in the order in which they were opened; \<open>t\<close> is the text fallback of those
  blocks, and the code after the loop delivers its snapshot when no \<^verbatim>\<open>done\<close> event
  was received and some response text, citation or block was. (The arrays inside a completed block
  were shared with the block state only, which \<^verbatim>\<open>block_end\<close> removes from the map, so
  no later event reaches them.) The example that follows the theorem is a stream that
  completes the block \<^verbatim>\<open>b1\<close> and then receives a \<^verbatim>\<open>block_delta\<close> for \<^verbatim>\<open>b1\<close>: the
  completed block stays as it is, a new block is opened under the same id, a
  \<^verbatim>\<open>block_end\<close> completes that one after the first, and the three snapshots list the
  completed block before the open one.
\<close>

theorem completed_blocks_are_final:
  "prefix (completedBlocks s) (completedBlocks (run decode conf ins s))
   \<and> (map_of (streamingBlocks s) b = Some st \<longrightarrow>
        completedBlocks (handle_event conf (Block_end b q) s)
          = completedBlocks s @ [\<lparr>ctype = block_type st, cdata = [''id'' \<mapsto> VStr (block_id st)] ++ data st\<rparr>]
        \<and> map_of (streamingBlocks (handle_event conf (Block_end b q) s)) b = None)
   \<and> (map_of (streamingBlocks s) b = None \<longrightarrow>
        (\<exists>st'. applyBlockDelta (new_block b ''text'') path v = Inr st'
           \<and> data (new_block b ''text'') = Map.empty
           \<and> streamingBlocks (handle_event conf (Block_delta b path v) s) = streamingBlocks s @ [(b, st')]
           \<and> completedBlocks (handle_event conf (Block_delta b path v) s) = completedBlocks s))
   \<and> (blocksToTextFallback (buildBlocksFromState (completedBlocks s) (streamingBlocks s)) = Inr t \<longrightarrow>
        calls (frame_callback s) = calls s @
          [onMessageUpdate (no_update\<lparr>u_content := Some t,
             u_blocks := Some (Some (completedBlocks s @ map (\<lambda>kv. stateToContentBlock (snd kv)) (streamingBlocks s))),
             u_streaming := Some True\<rparr>)]
        \<and> last (calls (handle_event conf (Done mid c) s)) =
            onMessageUpdate
              \<lparr>u_content = Some (if t \<noteq> [] then t else if fullResponse s \<noteq> [] then fullResponse s
                                  else ''No response received.''),
               u_blocks = Some (if completedBlocks s @ map (\<lambda>kv. stateToContentBlock (snd kv)) (streamingBlocks s) \<noteq> []
                                then Some (completedBlocks s @ map (\<lambda>kv. stateToContentBlock (snd kv)) (streamingBlocks s))
                                else None),
               u_citations = Some (citations s),
               u_streaming = Some False,
               u_confidence = Some (case c of Some x \<Rightarrow> x | None \<Rightarrow> conf)\<rparr>
        \<and> (\<not> receivedDoneEvent s \<and> has_content s \<longrightarrow>
            calls (after_loop s) = calls s @
              [onMessageUpdate
                \<lparr>u_content = Some (if t \<noteq> [] then t else if fullResponse s \<noteq> [] then fullResponse s
                                    else ''Response stream ended unexpectedly.''),
                 u_blocks = Some (if completedBlocks s @ map (\<lambda>kv. stateToContentBlock (snd kv)) (streamingBlocks s) \<noteq> []
                                  then Some (completedBlocks s @ map (\<lambda>kv. stateToContentBlock (snd kv)) (streamingBlocks s))
                                  else None),
                 u_citations = Some (citations s),
                 u_streaming = Some False,
                 u_confidence = None\<rparr>]))"
proof -
  have e: "map_of (streamingBlocks s) b = Some st \<longrightarrow>
        completedBlocks (handle_event conf (Block_end b q) s)
          = completedBlocks s @ [\<lparr>ctype = block_type st, cdata = [''id'' \<mapsto> VStr (block_id st)] ++ data st\<rparr>]
        \<and> map_of (streamingBlocks (handle_event conf (Block_end b q) s)) b = None"
    using on_block_end_open(1,2)[of s b st q] by (simp add: handle_event_def delete_conv')
  have d: "map_of (streamingBlocks s) b = None \<longrightarrow>
        (\<exists>st'. applyBlockDelta (new_block b ''text'') path v = Inr st'
           \<and> data (new_block b ''text'') = Map.empty
           \<and> streamingBlocks (handle_event conf (Block_delta b path v) s) = streamingBlocks s @ [(b, st')]
           \<and> completedBlocks (handle_event conf (Block_delta b path v) s) = completedBlocks s)"
  proof
    assume n: "map_of (streamingBlocks s) b = None"
    obtain st' where a: "applyBlockDelta (new_block b ''text'') path v = Inr st'"
      and h: "on_block_delta b path v s = scheduleUpdate (s\<lparr>streamingBlocks := streamingBlocks s @ [(b, st')]\<rparr>)"
      using on_block_delta_unseen[OF n, of path v] by blast
    show "\<exists>st'. applyBlockDelta (new_block b ''text'') path v = Inr st'
           \<and> data (new_block b ''text'') = Map.empty
           \<and> streamingBlocks (handle_event conf (Block_delta b path v) s) = streamingBlocks s @ [(b, st')]
           \<and> completedBlocks (handle_event conf (Block_delta b path v) s) = completedBlocks s"
      using a h by (intro exI[of _ st']) (simp add: handle_event_def scheduleUpdate_def new_block_def)
  qed
  have h: "handle_event conf (Done mid c) s = on_done conf mid c s" by (simp add: handle_event_def)
  show ?thesis
    using completed_run[of s decode conf ins] e d frame_callback_calls[of s t]
      on_done_snapshot[of s t conf mid c] after_loop_snapshot[of s t]
    unfolding h by blast
qed

theorem completed_blocks_are_final_witness:
  "completedBlocks (run sample_decode 0 [Chunk chunk_text_block] initial) = [hi_there]
   \<and> map_of (streamingBlocks (run sample_decode 0 [Chunk chunk_text_block] initial)) ''b1'' = None
   \<and> (\<exists>st'. applyBlockDelta (new_block ''b1'' ''text'') ''content'' ''Hi '' = Inr st'
         \<and> streamingBlocks (handle_event 0 (Block_delta ''b1'' ''content'' ''Hi '')
               (run sample_decode 0 [Chunk chunk_text_block] initial)) = [(''b1'', st')]
         \<and> completedBlocks (handle_event 0 (Block_delta ''b1'' ''content'' ''Hi '')
               (run sample_decode 0 [Chunk chunk_text_block] initial)) = [hi_there])
   \<and> prefix [hi_there]
        (completedBlocks (run sample_decode 0 [Chunk chunk_delta, Frame, Chunk chunk_done]
           (run sample_decode 0 [Chunk chunk_text_block] initial)))
   \<and> map_of (streamingBlocks (run sample_decode 0 [Chunk chunk_text_block, Chunk chunk_delta] initial)) ''b1''
       = Some hi_open
   \<and> completedBlocks (handle_event 0 (Block_end ''b1'' None)
        (run sample_decode 0 [Chunk chunk_text_block, Chunk chunk_delta] initial)) = [hi_there, hi]
   \<and> calls (frame_callback (run sample_decode 0 [Chunk chunk_text_block, Chunk chunk_delta] initial))
       = [onMessageUpdate (no_update\<lparr>u_content := Some (''Hi there'' @ newline @ newline @ ''Hi ''),
                                      u_blocks := Some (Some [hi_there, hi]), u_streaming := Some True\<rparr>)]
   \<and> last (calls (handle_event 0 (Done None None)
              (run sample_decode 0 [Chunk chunk_text_block, Chunk chunk_delta] initial)))
       = onMessageUpdate \<lparr>u_content = Some (''Hi there'' @ newline @ newline @ ''Hi ''),
                          u_blocks = Some (Some [hi_there, hi]), u_citations = Some [],
                          u_streaming = Some False, u_confidence = Some 0\<rparr>
   \<and> calls (after_loop (run sample_decode 0 [Chunk chunk_text_block, Chunk chunk_delta] initial))
       = [onMessageUpdate \<lparr>u_content = Some (''Hi there'' @ newline @ newline @ ''Hi ''),
                           u_blocks = Some (Some [hi_there, hi]), u_citations = Some [],
                           u_streaming = Some False, u_confidence = None\<rparr>]"
proof -
  let ?s1 = "run sample_decode 0 [Chunk chunk_text_block] initial"
  let ?s2 = "run sample_decode 0 [Chunk chunk_text_block, Chunk chunk_delta] initial"
  let ?t = "''Hi there'' @ newline @ newline @ ''Hi ''"
  have a1: "?s1 = initial\<lparr>timeoutRef := None, completedBlocks := [hi_there], pendingUpdate := True, rafId := Some ()\<rparr>"
    by (simp add: chunk_text_block_initial)
  have f1: "completedBlocks ?s1 = [hi_there]" "streamingBlocks ?s1 = []"
    unfolding a1 by (simp_all add: initial_def)
  have n1: "map_of (streamingBlocks ?s1) ''b1'' = None"
    unfolding f1 by simp
  have f2: "completedBlocks ?s2 = [hi_there]" "streamingBlocks ?s2 = [(''b1'', hi_open)]"
    "calls ?s2 = []" "fullResponse ?s2 = []" "citations ?s2 = []"
    unfolding reopened by (simp_all add: initial_def)
  have g2: "\<not> receivedDoneEvent ?s2" "has_content ?s2"
    unfolding reopened by (simp_all add: initial_def has_content_def buildBlocksFromState_def)
  have o2: "map_of (streamingBlocks ?s2) ''b1'' = Some hi_open"
    unfolding f2 by simp
  have t: "blocksToTextFallback (buildBlocksFromState (completedBlocks ?s2) (streamingBlocks ?s2)) = Inr ?t"
    unfolding f2 by (simp add: buildBlocksFromState_def stateToContentBlock_hi_open reopened_text)
  have bs: "completedBlocks ?s2 @ map (\<lambda>kv. stateToContentBlock (snd kv)) (streamingBlocks ?s2) = [hi_there, hi]"
    unfolding f2 by (simp add: stateToContentBlock_hi_open)
  have h: "\<lparr>ctype = block_type hi_open, cdata = [''id'' \<mapsto> VStr (block_id hi_open)] ++ data hi_open\<rparr> = hi"
    by (simp add: hi_open_def hi_def)
  note at1 = completed_blocks_are_final[where s = ?s1 and b = "''b1''" and path = "''content''" and v = "''Hi ''"
      and conf = 0 and decode = sample_decode and ins = "[Chunk chunk_delta, Frame, Chunk chunk_done]"]
  note at2 = completed_blocks_are_final[where s = ?s2 and b = "''b1''" and st = hi_open and q = None and conf = 0
      and mid = None and c = None and t = ?t]
  have p: "prefix [hi_there]
        (completedBlocks (run sample_decode 0 [Chunk chunk_delta, Frame, Chunk chunk_done] ?s1))"
    using at1 unfolding f1 by blast
  have d: "\<exists>st'. applyBlockDelta (new_block ''b1'' ''text'') ''content'' ''Hi '' = Inr st'
         \<and> streamingBlocks (handle_event 0 (Block_delta ''b1'' ''content'' ''Hi '') ?s1) = [] @ [(''b1'', st')]
         \<and> completedBlocks (handle_event 0 (Block_delta ''b1'' ''content'' ''Hi '') ?s1) = [hi_there]"
    using at1 n1 unfolding f1 by blast
  have e: "completedBlocks (handle_event 0 (Block_end ''b1'' None) ?s2) = [hi_there] @ [hi]"
    using at2 o2 unfolding f2(1) h by blast
  have fr: "calls (frame_callback ?s2)
       = [] @ [onMessageUpdate (no_update\<lparr>u_content := Some ?t, u_blocks := Some (Some [hi_there, hi]),
                                           u_streaming := Some True\<rparr>)]"
    using at2 t unfolding bs f2(3) by blast
  have dn: "last (calls (handle_event 0 (Done None None) ?s2))
       = onMessageUpdate
              \<lparr>u_content = Some (if ?t \<noteq> [] then ?t else if fullResponse ?s2 \<noteq> [] then fullResponse ?s2
                                  else ''No response received.''),
               u_blocks = Some (if [hi_there, hi] \<noteq> [] then Some [hi_there, hi] else None),
               u_citations = Some (citations ?s2),
               u_streaming = Some False,
               u_confidence = Some (case None of Some x \<Rightarrow> x | None \<Rightarrow> 0)\<rparr>"
    using at2 t unfolding bs by blast
  have al: "calls (after_loop ?s2) = calls ?s2 @
              [onMessageUpdate
                \<lparr>u_content = Some (if ?t \<noteq> [] then ?t else if fullResponse ?s2 \<noteq> [] then fullResponse ?s2
                                    else ''Response stream ended unexpectedly.''),
                 u_blocks = Some (if [hi_there, hi] \<noteq> [] then Some [hi_there, hi] else None),
                 u_citations = Some (citations ?s2),
                 u_streaming = Some False,
                 u_confidence = None\<rparr>]"
    using at2 t g2 unfolding bs by blast
  have nt: "?t \<noteq> []" by simp
  show ?thesis
    apply (intro conjI)
            apply (rule f1(1))
           apply (rule n1)
          subgoal using d by simp
         apply (rule p)
        apply (rule o2)
       subgoal using e by simp
      subgoal using fr by simp
     subgoal unfolding dn f2 by (simp add: newline_def)
    subgoal unfolding al f2 by (simp add: newline_def)
    done
qed

text \<open>
  The same stream as the loop runs it: the frame callback and the \<^verbatim>\<open>done\<close> event,
  or the end of the transport in its place, deliver the completed block before the block
  opened after it.
\<close>

lemma frame_after_reopened:
  "step sample_decode 0 Frame
     (initial\<lparr>timeoutRef := None, completedBlocks := [hi_there], pendingUpdate := True, rafId := Some (),
              streamingBlocks := [(''b1'', hi_open)]\<rparr>)
   = initial\<lparr>timeoutRef := None, completedBlocks := [hi_there], streamingBlocks := [(''b1'', hi_open)],
              fullResponse := ''Hi there'' @ newline @ newline @ ''Hi '',
              calls := [onMessageUpdate (no_update\<lparr>u_content := Some (''Hi there'' @ newline @ newline @ ''Hi ''),
                                                   u_blocks := Some (Some [hi_there, hi]),
                                                   u_streaming := Some True\<rparr>)]\<rparr>"
  by (simp add: step_def frame_callback_def buildBlocksFromState_def stateToContentBlock_hi_open reopened_text
      emit_def Let_def initial_def)

lemma done_after_reopened:
  "calls (step sample_decode 0 (Chunk chunk_done)
     (initial\<lparr>timeoutRef := None, completedBlocks := [hi_there], streamingBlocks := [(''b1'', hi_open)],
              fullResponse := ''Hi there'' @ newline @ newline @ ''Hi '',
              calls := [onMessageUpdate (no_update\<lparr>u_content := Some (''Hi there'' @ newline @ newline @ ''Hi ''),
                                                   u_blocks := Some (Some [hi_there, hi]),
                                                   u_streaming := Some True\<rparr>)]\<rparr>))
   = [onMessageUpdate (no_update\<lparr>u_content := Some (''Hi there'' @ newline @ newline @ ''Hi ''),
                                   u_blocks := Some (Some [hi_there, hi]), u_streaming := Some True\<rparr>),
      setConfidence 0,
      onMessageUpdate \<lparr>u_content = Some (''Hi there'' @ newline @ newline @ ''Hi ''),
                       u_blocks = Some (Some [hi_there, hi]), u_citations = Some [],
                       u_streaming = Some False, u_confidence = Some 0\<rparr>,
      reader_cancel]"
  by (simp add: step_def on_chunk_def chunk_done_def newline_def initial_def Let_def process_line_def
    startsWith_def sample_decode_def handle_event_def emit_def on_done_def
    cancelScheduledUpdate_def after_loop_def finally_block_def buildBlocksFromState_def
    stateToContentBlock_hi_open reopened_text[unfolded newline_def, simplified])

lemma reopened_block_on_the_wire:
  "calls (run sample_decode 0 [Chunk chunk_text_block, Chunk chunk_delta, Frame, Chunk chunk_done] initial)
   = [onMessageUpdate (no_update\<lparr>u_content := Some (''Hi there'' @ newline @ newline @ ''Hi ''),
                                   u_blocks := Some (Some [hi_there, hi]), u_streaming := Some True\<rparr>),
      setConfidence 0,
      onMessageUpdate \<lparr>u_content = Some (''Hi there'' @ newline @ newline @ ''Hi ''),
                       u_blocks = Some (Some [hi_there, hi]), u_citations = Some [],
                       u_streaming = Some False, u_confidence = Some 0\<rparr>,
      reader_cancel]"
  by (simp only: run.simps chunk_text_block_initial chunk_delta_after_text_block frame_after_reopened
      done_after_reopened)

lemma end_after_reopened:
  "calls (step sample_decode 0 EndOfStream
     (initial\<lparr>timeoutRef := None, completedBlocks := [hi_there], pendingUpdate := True, rafId := Some (),
              streamingBlocks := [(''b1'', hi_open)]\<rparr>))
   = [onMessageUpdate \<lparr>u_content = Some (''Hi there'' @ newline @ newline @ ''Hi ''),
                       u_blocks = Some (Some [hi_there, hi]), u_citations = Some [],
                       u_streaming = Some False, u_confidence = None\<rparr>]"
  by (simp add: step_def initial_def Let_def emit_def cancelScheduledUpdate_def after_loop_def finally_block_def
      buildBlocksFromState_def stateToContentBlock_hi_open reopened_text[unfolded newline_def, simplified] newline_def)

lemma reopened_block_unexpected_end:
  "calls (run sample_decode 0 [Chunk chunk_text_block, Chunk chunk_delta, EndOfStream] initial)
   = [onMessageUpdate \<lparr>u_content = Some (''Hi there'' @ newline @ newline @ ''Hi ''),
                       u_blocks = Some (Some [hi_there, hi]), u_citations = Some [],
                       u_streaming = Some False, u_confidence = None\<rparr>]"
  by (simp only: run.simps chunk_text_block_initial chunk_delta_after_text_block end_after_reopened)

end
